theory Spec2Isabelle
  imports Complex_Main
begin

section \<open>Values and errors\<close>

text \<open>
  The module \<^verbatim>\<open>index.js\<close>: a manager of prepared SQL statements read from files, their template resolution (\<^verbatim>\<open>DBS.frag\<close>), execution (\<^verbatim>\<open>DBS.exec\<close>,
  \<^verbatim>\<open>execSqlPublic\<close>) and the lifecycle operations of the \<^verbatim>\<open>Manager\<close>.

  Strings are lists of 8-bit characters. JavaScript numbers are taken by their exact
  rational value (no rounding to doubles, no NaN); the connection version and the version
  literals of a statement are the only numbers the module computes with.
  A rejected promise and a thrown exception are both the \<open>Inl\<close> of a sum.
\<close>

datatype error =
    ReferenceError string
  | TypeError string
  | RangeError string
  | Error string
  | IOError string
  | DriverError string
  | Unmodelled string

text \<open>
  \<open>Unmodelled\<close> is no error of the module. It ends a run that the model does not follow
  any further, because from there on what the module does depends on the objects of the
  host and on what the module has written into them (see \<open>assign\<close>).
\<close>

datatype jsval =
    JUndefined
  | JNull
  | JBool bool
  | JNum rat
  | JStr string
  | JArr "jsval list"
  | JDate "int option"
  | JObj "(string \<times> jsval) list"
  | JErr error

text \<open>\<open>JDate None\<close> is an invalid date; \<open>JDate (Some ms)\<close> a date by its time value.\<close>

fun truthy :: "jsval \<Rightarrow> bool" where
  "truthy JUndefined = False"
| "truthy JNull = False"
| "truthy (JBool b) = b"
| "truthy (JNum n) = (n \<noteq> 0)"
| "truthy (JStr s) = (s \<noteq> [])"
| "truthy (JArr _) = True"
| "truthy (JDate _) = True"
| "truthy (JObj _) = True"
| "truthy (JErr _) = True"

type_synonym binds = "string \<rightharpoonup> jsval"

section \<open>Regular expressions and \<^verbatim>\<open>String.prototype.replace\<close>\<close>

text \<open>
  The four patterns of \<^verbatim>\<open>frag\<close> use character classes, sequence, alternation, greedy
  and lazy repetition, capture groups and a negative lookahead. \<open>rx_match r s c\<close> lists
  every way \<open>r\<close> matches a prefix of \<open>s\<close>, as the remaining input and the captures, in
  the order a backtracking matcher tries them: the head of the list is the match
  JavaScript reports. A repetition does not iterate on an empty match.
\<close>

type_synonym caps = "nat \<rightharpoonup> string"

datatype rx =
    Eps
  | Cls "char \<Rightarrow> bool"
  | Seq rx rx
  | Alt rx rx
  | Star bool rx
  | Group nat rx
  | NegLook rx

function rx_match :: "rx \<Rightarrow> string \<Rightarrow> caps \<Rightarrow> (string \<times> caps) list" where
  "rx_match Eps s c = [(s, c)]"
| "rx_match (Cls P) s c = (case s of [] \<Rightarrow> [] | x # xs \<Rightarrow> if P x then [(xs, c)] else [])"
| "rx_match (Seq a b) s c = concat (map (\<lambda>p. rx_match b (fst p) (snd p)) (rx_match a s c))"
| "rx_match (Alt a b) s c = rx_match a s c @ rx_match b s c"
| "rx_match (Star greedy r) s c =
     (let more = concat (map (\<lambda>p. if length (fst p) < length s
                                    then rx_match (Star greedy r) (fst p) (snd p) else [])
                             (rx_match r s c))
      in if greedy then more @ [(s, c)] else (s, c) # more)"
| "rx_match (Group n r) s c =
     map (\<lambda>p. (fst p, (snd p)(n \<mapsto> take (length s - length (fst p)) s))) (rx_match r s c)"
| "rx_match (NegLook r) s c = (if rx_match r s c = [] then [(s, c)] else [])"
  by pat_completeness auto
termination
  by (relation "inv_image (less_than <*lex*> less_than) (\<lambda>(r, s, c). (size r, length s))") auto

definition chr :: "char \<Rightarrow> rx" where
  "chr x = Cls (\<lambda>y. y = x)"

definition lit :: "string \<Rightarrow> rx" where
  "lit s = foldr (\<lambda>x r. Seq (chr x) r) s Eps"

definition seqs :: "rx list \<Rightarrow> rx" where
  "seqs rs = foldr Seq rs Eps"

definition opt :: "rx \<Rightarrow> rx" where
  "opt r = Alt r Eps"

definition plus :: "rx \<Rightarrow> rx" where
  "plus r = Seq r (Star True r)"

text \<open>\<^verbatim>\<open>r{0,2}\<close>, greedy: two, then one, then none.\<close>

definition upto2 :: "rx \<Rightarrow> rx" where
  "upto2 r = opt (Seq r (opt r))"

text \<open>The ranges \<^verbatim>\<open>0-9\<close>, \<^verbatim>\<open>a-z\<close> and \<^verbatim>\<open>A-Z\<close>, by character code.\<close>

definition is_digit :: "char \<Rightarrow> bool" where
  "is_digit x = (48 \<le> (of_char x :: nat) \<and> (of_char x :: nat) \<le> 57)"

definition is_lower :: "char \<Rightarrow> bool" where
  "is_lower x = (97 \<le> (of_char x :: nat) \<and> (of_char x :: nat) \<le> 122)"

definition is_upper :: "char \<Rightarrow> bool" where
  "is_upper x = (65 \<le> (of_char x :: nat) \<and> (of_char x :: nat) \<le> 90)"

text \<open>\<^verbatim>\<open>[a-z]\<close> under the flag \<^verbatim>\<open>i\<close>.\<close>

definition is_alpha :: "char \<Rightarrow> bool" where
  "is_alpha x = (is_lower x \<or> is_upper x)"

text \<open>\<^verbatim>\<open>\w\<close>.\<close>

definition is_word :: "char \<Rightarrow> bool" where
  "is_word x = (is_alpha x \<or> is_digit x \<or> x = CHR ''_'')"

text \<open>\<^verbatim>\<open>\s\<close>, on 8-bit characters: TAB, LF, VT, FF, CR, space and the no-break space.\<close>

definition is_space :: "char \<Rightarrow> bool" where
  "is_space x = (x \<in> set [CHR 0x09, CHR 0x0A, CHR 0x0B, CHR 0x0C, CHR 0x0D, CHR '' '', CHR 0xA0])"

text \<open>\<^verbatim>\<open>toLowerCase\<close> and \<^verbatim>\<open>toUpperCase\<close> change the letters A to Z and a to z. A letter of
  a pattern under the flag \<^verbatim>\<open>i\<close> matches both of its cases.\<close>

definition to_lower :: "char \<Rightarrow> char" where
  "to_lower x =
     (case map_of (zip ''ABCDEFGHIJKLMNOPQRSTUVWXYZ'' ''abcdefghijklmnopqrstuvwxyz'') x of
        None \<Rightarrow> x
      | Some y \<Rightarrow> y)"

definition toLowerCase :: "string \<Rightarrow> string" where
  "toLowerCase s = map to_lower s"

definition lit_ci :: "string \<Rightarrow> rx" where
  "lit_ci s = foldr (\<lambda>x r. Seq (Cls (\<lambda>y. to_lower y = to_lower x)) r) s Eps"

text \<open>\<^verbatim>\<open>(?:\r?\n|\n)*\<close>\<close>

definition nls :: rx where
  "nls = Star True (Alt (Seq (opt (chr (CHR 0x0D))) (chr (CHR 0x0A))) (chr (CHR 0x0A)))"

text \<open>\<^verbatim>\<open>-{0,2}\<close>\<close>

definition dashes :: rx where
  "dashes = upto2 (chr CHR ''-'')"

text \<open>\<^verbatim>\<open>/(:)([a-z]+[0-9]*?)/gi\<close>\<close>

definition sqlArrayRx :: rx where
  "sqlArrayRx = seqs [Group 1 (chr CHR '':''),
                      Group 2 (Seq (plus (Cls is_alpha)) (Star False (Cls is_digit)))]"

text \<open>
  \<^verbatim>\<open>/((?:\r?\n|\n)*)-{0,2}\[\[\!(?!\[\[\!)\s*(\w+)\s*\]\](?:\r?\n|\n)*([\S\s]*?)-{0,2}\[\[\!\]\]((?:\r?\n|\n)*)/g\<close>
  and the same pattern with \<^verbatim>\<open>\?\<close> for \<^verbatim>\<open>\!\<close>: \<open>mk\<close> is the marker character.
\<close>

definition guardRx :: "char \<Rightarrow> rx" where
  "guardRx mk = seqs [Group 1 nls, dashes, lit [CHR ''['', CHR ''['', mk],
                      NegLook (lit [CHR ''['', CHR ''['', mk]),
                      Star True (Cls is_space), Group 2 (plus (Cls is_word)),
                      Star True (Cls is_space), lit '']]'', nls,
                      Group 3 (Star False (Cls (\<lambda>_. True))),
                      dashes, lit [CHR ''['', CHR ''['', mk, CHR '']'', CHR '']''],
                      Group 4 nls]"

definition sqlDiaRx :: rx where
  "sqlDiaRx = guardRx CHR ''!''"

definition sqlFragRx :: rx where
  "sqlFragRx = guardRx CHR ''?''"

text \<open>
  \<^verbatim>\<open>/((?:\r?\n|\n)*)-{0,2}\[\[version(?!\[\[version)\s*(=|<=?|>=?|<>)\s*[+-]?(\d+\.?\d*)\s*\]\](?:\r?\n|\n)*([\S\s]*?)-{0,2}\[\[version\]\]((?:\r?\n|\n)*)/gi\<close>
\<close>

definition sqlVerRx :: rx where
  "sqlVerRx = seqs [Group 1 nls, dashes, lit ''[['', lit_ci ''version'',
                    NegLook (Seq (lit ''[['') (lit_ci ''version'')),
                    Star True (Cls is_space),
                    Group 2 (Alt (chr CHR ''='')
                            (Alt (Seq (chr CHR ''<'') (opt (chr CHR ''='')))
                            (Alt (Seq (chr CHR ''>'') (opt (chr CHR ''='')))
                                 (lit ''<>'')))),
                    Star True (Cls is_space),
                    opt (Cls (\<lambda>x. x = CHR ''+'' \<or> x = CHR ''-'')),
                    Group 3 (seqs [plus (Cls is_digit), opt (chr CHR ''.''),
                                   Star True (Cls is_digit)]),
                    Star True (Cls is_space), lit '']]'', nls,
                    Group 4 (Star False (Cls (\<lambda>_. True))),
                    dashes, lit ''[['', lit_ci ''version'', lit '']]'',
                    Group 5 nls]"

text \<open>The match at the start of \<open>s\<close>: what is left of the input, and the captures.\<close>

definition match_here :: "rx \<Rightarrow> string \<Rightarrow> (string \<times> caps) option" where
  "match_here r s = (case rx_match r s Map.empty of [] \<Rightarrow> None | p # _ \<Rightarrow> Some p)"

text \<open>
  \<^verbatim>\<open>s.replace(r, f)\<close> for a global pattern \<open>r\<close> and a function \<open>f\<close>, which may update a
  state (the bind set): the leftmost match from the current position is replaced by what
  \<open>f\<close> returns for its captures, and the scan goes on after the match. After an empty
  match the next character is copied and the scan goes on behind it.
\<close>

function replace_all :: "rx \<Rightarrow> (caps \<Rightarrow> 'st \<Rightarrow> string \<times> 'st) \<Rightarrow> string \<Rightarrow> 'st \<Rightarrow> string \<times> 'st" where
  "replace_all r f s st =
     (case match_here r s of
        None \<Rightarrow> (case s of [] \<Rightarrow> ([], st)
                 | x # xs \<Rightarrow> (let (out, st') = replace_all r f xs st in (x # out, st')))
      | Some (rest, c) \<Rightarrow>
          (let (rep, st1) = f c st in
           if length rest < length s
           then (let (out, st2) = replace_all r f rest st1 in (rep @ out, st2))
           else (case s of [] \<Rightarrow> (rep, st1)
                 | x # xs \<Rightarrow> (let (out, st2) = replace_all r f xs st1 in (rep @ x # out, st2)))))"
  by pat_completeness auto
termination
  by (relation "measure (\<lambda>(r, f, s, st). length s)") auto

definition replace :: "rx \<Rightarrow> (caps \<Rightarrow> string) \<Rightarrow> string \<Rightarrow> string" where
  "replace r f s = fst (replace_all r (\<lambda>c u. (f c, u)) s ())"

text \<open>
  A capture group by its number. Every group of the four patterns lies outside any
  alternative, so it takes part in every match.
\<close>

definition grp :: "caps \<Rightarrow> nat \<Rightarrow> string" where
  "grp c n = (case c n of None \<Rightarrow> [] | Some s \<Rightarrow> s)"

section \<open>\<^verbatim>\<open>DBS.frag\<close>\<close>

function string_of_nat :: "nat \<Rightarrow> string" where
  "string_of_nat n =
     (if n < 10 then [''0123456789'' ! n]
      else string_of_nat (n div 10) @ [''0123456789'' ! (n mod 10)])"
  by pat_completeness auto
termination
  by (relation "measure id") auto

text \<open>\<^verbatim>\<open>(i || '')\<close>\<close>

definition idx :: "nat \<Rightarrow> string" where
  "idx i = (if i = 0 then [] else string_of_nat i)"

text \<open>
  The loop of \<^verbatim>\<open>sqlArrayRpl\<close> over \<^verbatim>\<open>vals\<close> from index \<open>i\<close>: \<open>ks\<close> is the local
  \<^verbatim>\<open>keys\<close>, \<open>b\<close> the bind set \<^verbatim>\<open>rplmts\<close>.
\<close>

fun sqlArrayLoop :: "string \<Rightarrow> string \<Rightarrow> jsval list \<Rightarrow> nat \<Rightarrow> string \<Rightarrow> binds \<Rightarrow> string \<times> binds" where
  "sqlArrayLoop pkey key [] i ks b = (ks, b)"
| "sqlArrayLoop pkey key (v # vs) i ks b =
     sqlArrayLoop pkey key vs (Suc i)
       (ks @ (if ks \<noteq> [] then '', '' else []) @ pkey @ key @ idx i)
       (b(key @ idx i \<mapsto> v))"

definition sqlArrayRpl :: "caps \<Rightarrow> binds option \<Rightarrow> string \<times> binds option" where
  "sqlArrayRpl c rplmts =
     (let pkey = grp c 1; key = grp c 2 in
      case rplmts of
        None \<Rightarrow> (pkey @ key, None)
      | Some b \<Rightarrow>
          (case (if key \<noteq> [] then b key else None) of
             Some (JArr vals) \<Rightarrow>
               (let (ks, b') = sqlArrayLoop pkey key vals 0 [] b
                in (if ks \<noteq> [] then ks else pkey @ key, Some b'))
           | _ \<Rightarrow> (pkey @ key, Some b)))"

text \<open>The replacement of a guard span: \<open>keep\<close> is the guard's condition.\<close>

definition guardRpl :: "bool \<Rightarrow> string \<Rightarrow> string \<Rightarrow> string \<Rightarrow> string" where
  "guardRpl keep lb1 fsql lb2 =
     (if keep \<and> fsql \<noteq> [] then lb1 @ fsql
      else if lb1 \<noteq> [] \<or> lb2 \<noteq> [] then '' '' else [])"

definition sqlDiaRpl :: "string \<Rightarrow> caps \<Rightarrow> string" where
  "sqlDiaRpl dialect c =
     (let lb1 = grp c 1; key = grp c 2; fsql = grp c 3; lb2 = grp c 4 in
      guardRpl (key \<noteq> [] \<and> toLowerCase key = dialect) lb1 fsql lb2)"

definition COMPARE :: "string \<Rightarrow> (rat \<Rightarrow> rat \<Rightarrow> bool) option" where
  "COMPARE key =
     (if key = ''='' then Some (\<lambda>x y. x = y)
      else if key = ''<'' then Some (\<lambda>x y. x < y)
      else if key = ''>'' then Some (\<lambda>x y. x > y)
      else if key = ''<='' then Some (\<lambda>x y. x \<le> y)
      else if key = ''>='' then Some (\<lambda>x y. x \<ge> y)
      else if key = ''<>'' then Some (\<lambda>x y. x \<noteq> y)
      else None)"

definition digit_val :: "char \<Rightarrow> nat" where
  "digit_val x = of_char x - 48"

definition decimal :: "string \<Rightarrow> nat" where
  "decimal ds = foldl (\<lambda>a d. 10 * a + digit_val d) 0 ds"

text \<open>
  \<^verbatim>\<open>parseFloat\<close> on an unsigned decimal literal, digits with an optional fraction, which
  is all the third group of the version pattern captures; \<open>None\<close> is NaN.
\<close>

definition parseFloat :: "string \<Rightarrow> rat option" where
  "parseFloat s =
     (let ip = takeWhile is_digit s;
          fp = (case dropWhile is_digit s of
                  [] \<Rightarrow> []
                | x # r \<Rightarrow> if x = CHR ''.'' then takeWhile is_digit r else [])
      in if ip = [] \<and> fp = [] then None
         else Some (of_nat (decimal ip) + of_nat (decimal fp) / 10 ^ length fp))"

text \<open>
  The second group of the version pattern captures one of the six comparators, so the
  lookup in \<^verbatim>\<open>COMPARE\<close> finds a function.
\<close>

definition sqlVerRpl :: "rat \<Rightarrow> caps \<Rightarrow> string" where
  "sqlVerRpl version c =
     (let lb1 = grp c 1; key = grp c 2; ver = grp c 3; fsql = grp c 4; lb2 = grp c 5 in
      guardRpl (key \<noteq> [] \<and> ver \<noteq> [] \<and>
                (case parseFloat ver of
                   None \<Rightarrow> False
                 | Some v \<Rightarrow> (case COMPARE key of None \<Rightarrow> False | Some cmp \<Rightarrow> cmp version v)))
               lb1 fsql lb2)"

definition sqlFragRpl :: "string list option \<Rightarrow> caps \<Rightarrow> string" where
  "sqlFragRpl keys c =
     (let lb1 = grp c 1; key = grp c 2; fsql = grp c 3; lb2 = grp c 4 in
      guardRpl (key \<noteq> [] \<and> (case keys of None \<Rightarrow> False | Some ks \<Rightarrow> key \<in> set ks))
               lb1 fsql lb2)"

text \<open>
  The four passes on a string, in the order of the source: array binds, dialect guards,
  version guards, selection guards.
\<close>

definition frag_str :: "string \<Rightarrow> rat \<Rightarrow> string \<Rightarrow> string list option \<Rightarrow> binds option
    \<Rightarrow> string \<times> binds option" where
  "frag_str dialect version sql keys rplmts =
     (let (s1, b1) = replace_all sqlArrayRx sqlArrayRpl sql rplmts;
          s2 = replace sqlDiaRx (sqlDiaRpl dialect) s1;
          s3 = replace sqlVerRx (sqlVerRpl version) s2;
          s4 = replace sqlFragRx (sqlFragRpl keys) s3
      in (s4, b1))"

text \<open>
  \<^verbatim>\<open>frag(sql, keys, rplmts)\<close> of a \<^verbatim>\<open>DBS\<close> with the given dialect and version. The
  statement read from a JSON file need not be a string: a falsy one is returned as it
  is, and one without a method \<^verbatim>\<open>replace\<close> raises.
\<close>

definition frag :: "string \<Rightarrow> rat \<Rightarrow> jsval \<Rightarrow> string list option \<Rightarrow> binds option
    \<Rightarrow> error + (jsval \<times> binds option)" where
  "frag dialect version sql keys rplmts =
     (if \<not> truthy sql then Inr (sql, rplmts)
      else case sql of
        JStr s \<Rightarrow> (let (s', b') = frag_str dialect version s keys rplmts in Inr (JStr s', b'))
      | _ \<Rightarrow> Inl (TypeError ''sql.replace is not a function''))"


section \<open>Connections, drivers and the database service \<^verbatim>\<open>DBS\<close>\<close>

text \<open>
  The fields of a connection's configuration that the statements and the service read.
  \<open>conn_substitute\<close> is the effect of the configured substitutions on a file's text
  (the identity when there are none); \<open>conn_logging\<close> says whether a logger is set.
  The version, when configured, is a number. Log output is not modelled.
\<close>

record conn =
  conn_name :: string
  conn_dialect :: string
  conn_version :: "rat option"
  conn_binds :: "(string \<times> jsval) list option"
  conn_logging :: bool
  conn_substitute :: "string \<Rightarrow> string"

text \<open>The options \<^verbatim>\<open>DBS.exec\<close> receives; an absent property is \<open>JUndefined\<close>.\<close>

record exec_opts =
  eo_type :: jsval
  eo_binds :: "binds option"
  eo_returnErrors :: jsval

text \<open>
  The driver of a connection, an external collaborator: what each of its operations
  answers. \<^verbatim>\<open>exec\<close> receives the statement, the options, the pending count of the
  transaction context and the fragment keys; \<^verbatim>\<open>init\<close> the number of prepared
  statements; the others the pending count.
\<close>

record driver =
  dbx_init :: "nat \<Rightarrow> error + jsval"
  dbx_exec :: "jsval \<Rightarrow> exec_opts \<Rightarrow> nat \<Rightarrow> string list option \<Rightarrow> error + jsval"
  dbx_commit :: "nat \<Rightarrow> error + jsval"
  dbx_rollback :: "nat \<Rightarrow> error + jsval"
  dbx_close :: "nat \<Rightarrow> error + jsval"

text \<open>
  What an object has under a name before the module sets a property of that name: for
  a plain object what it inherits, for a function also what it has as a function. The
  value of such a property is an object of the host and truthy.
\<close>

datatype hprop =
    HAbsent
  | HWritable
  | HReadOnly
  | HAccessor
  | HThrows

text \<open>
  \<open>HAbsent\<close>: no property, reading it gives \<^verbatim>\<open>undefined\<close> and an assignment makes an
  own property. \<open>HWritable\<close>: a writable data property (\<^verbatim>\<open>constructor\<close> and \<^verbatim>\<open>toString\<close>
  of a plain object), an assignment makes an own property. \<open>HReadOnly\<close>: a data property
  that is not writable (\<^verbatim>\<open>name\<close> and \<^verbatim>\<open>length\<close> of a function), an assignment raises in
  strict mode, which is the mode of the module. \<open>HAccessor\<close>: an accessor property whose
  setter takes the value and makes no own property (\<^verbatim>\<open>__proto__\<close>). \<open>HThrows\<close>: an accessor
  property whose getter and setter raise (\<^verbatim>\<open>caller\<close> and \<^verbatim>\<open>arguments\<close> of a function in
  strict mode).
\<close>

text \<open>Built-ins of the host: \<^verbatim>\<open>Date.prototype.toISOString\<close> on a valid time value,
  \<^verbatim>\<open>JSON.parse\<close>, and the properties of a plain object (\<open>False\<close>) and of an async function
  (\<open>True\<close>) that the module has not set.\<close>

record host =
  h_iso :: "int \<Rightarrow> string"
  h_json_parse :: "string \<Rightarrow> error + jsval"
  h_prop :: "bool \<Rightarrow> string \<Rightarrow> hprop"

text \<open>The state of a \<^verbatim>\<open>DBS\<close>; \<open>dbs_calls\<close> records what was submitted to the
  driver's \<^verbatim>\<open>exec\<close>.\<close>

record dbs =
  dbs_dialect :: string
  dbs_version :: rat
  dbs_pending :: nat
  dbs_calls :: "(jsval \<times> exec_opts \<times> nat \<times> string list option) list"

definition new_DBS :: "conn \<Rightarrow> dbs" where
  "new_DBS c = \<lparr> dbs_dialect = toLowerCase (conn_dialect c),
                 dbs_version = (case conn_version c of None \<Rightarrow> 0 | Some v \<Rightarrow> v),
                 dbs_pending = 0, dbs_calls = [] \<rparr>"

definition exec :: "driver \<Rightarrow> dbs \<Rightarrow> string \<Rightarrow> jsval \<Rightarrow> exec_opts \<Rightarrow> string list option
    \<Rightarrow> (error + jsval) \<times> dbs" where
  "exec dbx d fpth sql opts frags =
     (case frag (dbs_dialect d) (dbs_version d) sql frags (eo_binds opts) of
        Inl e \<Rightarrow> (Inl e, d)
      | Inr (sqlf, b) \<Rightarrow>
          (let opts' = opts\<lparr>eo_binds := b\<rparr>;
               pending = dbs_pending d + (if eo_type opts = JStr ''READ'' then 0 else 1);
               d' = d\<lparr>dbs_pending := pending,
                      dbs_calls := dbs_calls d @ [(sqlf, opts', pending, frags)]\<rparr>
           in case dbx_exec dbx sqlf opts' pending frags of
                Inl err \<Rightarrow> (if truthy (eo_returnErrors opts) then Inr (JErr err) else Inl err, d')
              | Inr rslt \<Rightarrow> (Inr rslt, d')))"

section \<open>Prepared statements: \<^verbatim>\<open>SQLS\<close>\<close>

definition CRUD_TYPES :: "string list" where
  "CRUD_TYPES = [''CREATE'', ''READ'', ''UPDATE'', ''DELETE'']"

definition to_upper :: "char \<Rightarrow> char" where
  "to_upper x =
     (case map_of (zip ''abcdefghijklmnopqrstuvwxyz'' ''ABCDEFGHIJKLMNOPQRSTUVWXYZ'') x of
        None \<Rightarrow> x
      | Some y \<Rightarrow> y)"

definition toUpperCase :: "string \<Rightarrow> string" where
  "toUpperCase s = map to_upper s"

text \<open>
  The files under a connection's directory: a file with its text (\<open>None\<close> when it
  cannot be read), a directory with its entries in the order \<^verbatim>\<open>readdir\<close> lists them,
  or a directory that cannot be listed.
\<close>

datatype fsnode =
    File "string option"
  | Dir "(string \<times> fsnode) list"
  | NoList

text \<open>
  How a prepared statement gets its text: read once when it was prepared (no cache), or
  through the cache under an identifier, with the file's text for a refresh.
\<close>

datatype source =
    StaticSql jsval
  | CachedSql string "string option"

record stmt =
  st_name :: string
  st_fpth :: string
  st_ext :: string
  st_crud :: "string option"

text \<open>
  The object \<^verbatim>\<open>db\<close> of a connection: a node is a plain object (\<open>None\<close>) or a prepared
  function (\<open>Some\<close>) that the module has made, with the properties the module has set,
  or an object of the host (\<open>THost\<close>) that a property of a node refers to.
\<close>

datatype tnode = TNode "stmt option" "(string \<times> tnode) list" | THost

record sqls =
  sqls_conn :: conn
  sqls_basePath :: string
  sqls_root :: fsnode
  sqls_cache :: "(string \<rightharpoonup> jsval) option"
  sqls_dbx :: driver
  sqls_db :: tnode
  sqls_dbs :: dbs
  sqls_numOfPreparedStmts :: nat
  sqls_stms :: "string \<rightharpoonup> (string \<rightharpoonup> source)"

definition new_SQLS :: "string \<Rightarrow> (string \<rightharpoonup> jsval) option \<Rightarrow> fsnode \<Rightarrow> driver \<Rightarrow> conn \<Rightarrow> sqls" where
  "new_SQLS basePath cache rootdir dbx c =
     \<lparr> sqls_conn = c, sqls_basePath = basePath, sqls_root = rootdir, sqls_cache = cache,
       sqls_dbx = dbx, sqls_db = TNode None [], sqls_dbs = new_DBS c,
       sqls_numOfPreparedStmts = 0, sqls_stms = Map.empty \<rparr>"

text \<open>\<^verbatim>\<open>readSqlFile\<close>; the removal of a byte order mark before \<^verbatim>\<open>JSON.parse\<close> is
  left to \<open>h_json_parse\<close>.\<close>

definition readSqlFile :: "host \<Rightarrow> conn \<Rightarrow> string \<Rightarrow> string \<Rightarrow> string option \<Rightarrow> error + jsval" where
  "readSqlFile h c fpth ext file =
     (case file of
        None \<Rightarrow> Inl (IOError fpth)
      | Some data0 \<Rightarrow>
          (let data = (if data0 \<noteq> [] then conn_substitute c data0 else data0) in
           if ext = ''json''
           then (case h_json_parse h data of
                   Inl e \<Rightarrow> Inl e
                 | Inr dt \<Rightarrow> Inr (if truthy dt then dt else JStr data))
           else Inr (JStr data)))"

definition basename :: "string \<Rightarrow> string" where
  "basename p = rev (takeWhile (\<lambda>x. x \<noteq> CHR ''/'') (rev p))"

text \<open>\<^verbatim>\<open>Path.parse(fpth).name.match(/[^\.]*/)[0].toUpperCase()\<close>, then the check against
  \<^verbatim>\<open>CRUD_TYPES\<close>.\<close>

definition crud_of :: "string \<Rightarrow> string option" where
  "crud_of fpth =
     (let crud = toUpperCase (takeWhile (\<lambda>x. x \<noteq> CHR ''.'') (basename fpth))
      in if crud \<in> set CRUD_TYPES then Some crud else None)"

text \<open>
  \<^verbatim>\<open>SQLS.prepared(name, fpth, ext)\<close>, with \<open>file\<close> what reading \<open>fpth\<close> gives. With a
  logger set and no CRUD prefix, the message of the second log call is built from
  \<^verbatim>\<open>OPERATION_TYPES\<close>, an identifier that nothing in the module declares (the list is
  \<^verbatim>\<open>CRUD_TYPES\<close>, and \<^verbatim>\<open>OPERATION_TYPES\<close> only a static getter of \<^verbatim>\<open>Manager\<close>), so the
  evaluation raises.
\<close>

definition prepared :: "host \<Rightarrow> sqls \<Rightarrow> string \<Rightarrow> string \<Rightarrow> string \<Rightarrow> string option
    \<Rightarrow> error + (stmt \<times> sqls)" where
  "prepared h S name fpth ext file =
     (let crud = crud_of fpth in
      if conn_logging (sqls_conn S) \<and> crud = None
      then Inl (ReferenceError ''OPERATION_TYPES is not defined'')
      else
        (let st = \<lparr> st_name = name, st_fpth = fpth, st_ext = ext, st_crud = crud \<rparr> in
         case sqls_cache S of
           Some _ \<Rightarrow>
             (let ident = ''sqler:db:'' @ name @ (if ext \<noteq> [] then '':'' @ ext else [])
              in Inr (st, S\<lparr> sqls_stms := (sqls_stms S)(name \<mapsto> [ext \<mapsto> CachedSql ident file]),
                            sqls_numOfPreparedStmts := sqls_numOfPreparedStmts S + 1 \<rparr>))
         | None \<Rightarrow>
             (case readSqlFile h (sqls_conn S) fpth ext file of
                Inl e \<Rightarrow> Inl e
              | Inr sql \<Rightarrow>
                  Inr (st, S\<lparr> sqls_stms := (sqls_stms S)(name \<mapsto> [ext \<mapsto> StaticSql sql]),
                             sqls_numOfPreparedStmts := sqls_numOfPreparedStmts S + 1 \<rparr>))))"

text \<open>The options of a call of a prepared function; \<^verbatim>\<open>numOfIterations\<close> is never read.\<close>

record call_opts =
  o_type :: jsval
  o_binds :: "(string \<times> jsval) list option"
  o_returnErrors :: jsval

text \<open>\<^verbatim>\<open>(v instanceof Date && v.toISOString()) || v\<close>\<close>

fun convert_date :: "host \<Rightarrow> jsval \<Rightarrow> error + jsval" where
  "convert_date h (JDate None) = Inl (RangeError ''Invalid time value'')"
| "convert_date h (JDate (Some ms)) = Inr (if h_iso h ms \<noteq> [] then JStr (h_iso h ms) else JDate (Some ms))"
| "convert_date h v = Inr v"

text \<open>The first loop of \<^verbatim>\<open>execSqlPublic\<close>: the connection's binds that the call does not
  override.\<close>

definition default_binds :: "conn \<Rightarrow> call_opts option \<Rightarrow> binds" where
  "default_binds c opts =
     (case conn_binds c of
        None \<Rightarrow> Map.empty
      | Some cb \<Rightarrow>
          foldl (\<lambda>b (i, v).
                   if (case opts of
                         None \<Rightarrow> True
                       | Some co \<Rightarrow> (case o_binds co of None \<Rightarrow> True | Some ob \<Rightarrow> i \<notin> fst ` set ob))
                   then b(i \<mapsto> v) else b)
                Map.empty cb)"

text \<open>The second loop: the binds of the call, dates converted.\<close>

fun call_binds :: "host \<Rightarrow> (string \<times> jsval) list \<Rightarrow> binds \<Rightarrow> error + binds" where
  "call_binds h [] b = Inr b"
| "call_binds h ((i, v) # ob) b =
     (case convert_date h v of
        Inl e \<Rightarrow> Inl e
      | Inr v' \<Rightarrow> call_binds h ob (b(i \<mapsto> v')))"

definition merge_binds :: "host \<Rightarrow> conn \<Rightarrow> call_opts option \<Rightarrow> error + binds" where
  "merge_binds h c opts =
     (case opts of
        None \<Rightarrow> Inr (default_binds c opts)
      | Some co \<Rightarrow>
          (case o_binds co of
             None \<Rightarrow> Inr (default_binds c opts)
           | Some ob \<Rightarrow> call_binds h ob (default_binds c opts)))"

text \<open>\<^verbatim>\<open>genExecSqlFromFileFunction(fpth, type, binds, frags)\<close> applied to the statement:
  the options it builds have the type and the binds only.\<close>

definition genExecSqlFromFileFunction :: "sqls \<Rightarrow> string \<Rightarrow> jsval \<Rightarrow> binds \<Rightarrow> string list option
    \<Rightarrow> jsval \<Rightarrow> (error + jsval) \<times> sqls" where
  "genExecSqlFromFileFunction S fpth type b frags sql =
     (let opts = \<lparr> eo_type = type, eo_binds = Some b, eo_returnErrors = JUndefined \<rparr>;
          (r, d) = exec (sqls_dbx S) (sqls_dbs S) fpth sql opts frags
      in (r, S\<lparr> sqls_dbs := d \<rparr>))"

text \<open>
  The prepared function \<^verbatim>\<open>execSqlPublic(opts, frags)\<close> of a statement; \<open>opts = None\<close> is
  a call without options. The message of the rejection for a missing type is built
  from the undeclared \<^verbatim>\<open>OPERATION_TYPES\<close>, as in \<open>prepared\<close>. In the last statement the
  methods stored under the statement's name are looked up, then the arguments of the
  call are evaluated, \<^verbatim>\<open>opts.type\<close> among them, then the method of the extension is
  called.
\<close>

definition execSqlPublic :: "host \<Rightarrow> sqls \<Rightarrow> stmt \<Rightarrow> call_opts option \<Rightarrow> string list option
    \<Rightarrow> (error + jsval) \<times> sqls" where
  "execSqlPublic h S st opts frags =
     (if st_crud st = None \<and> (case opts of None \<Rightarrow> True | Some co \<Rightarrow> \<not> truthy (o_type co))
      then (Inl (ReferenceError ''OPERATION_TYPES is not defined''), S)
      else case merge_binds h (sqls_conn S) opts of
        Inl e \<Rightarrow> (Inl e, S)
      | Inr b \<Rightarrow>
          (case sqls_stms S (st_name st) of
             None \<Rightarrow> (Inl (TypeError ''Cannot read property of undefined''), S)
           | Some methods \<Rightarrow>
               (case opts of
                  None \<Rightarrow> (Inl (TypeError ''Cannot read property type of undefined''), S)
                | Some co \<Rightarrow>
                    (let type = (if truthy (o_type co) then o_type co
                                 else (case st_crud st of None \<Rightarrow> JNull | Some t \<Rightarrow> JStr t))
                     in case methods (st_ext st) of
                          None \<Rightarrow> (Inl (TypeError ''sqls.at.stms.methods[name][ext] is not a function''), S)
                        | Some (StaticSql sql) \<Rightarrow>
                            genExecSqlFromFileFunction S (st_fpth st) type b frags sql
                        | Some (CachedSql ident file) \<Rightarrow>
                            (case (case sqls_cache S of None \<Rightarrow> None | Some cache \<Rightarrow> cache ident) of
                               Some item \<Rightarrow>
                                 if truthy item
                                 then genExecSqlFromFileFunction S (st_fpth st) type b frags item
                                 else (case readSqlFile h (sqls_conn S) (st_fpth st) (st_ext st) file of
                                         Inl e \<Rightarrow> (Inl e, S)
                                       | Inr sql \<Rightarrow>
                                           genExecSqlFromFileFunction
                                             (S\<lparr> sqls_cache := map_option (\<lambda>cache. cache(ident \<mapsto> sql)) (sqls_cache S) \<rparr>)
                                             (st_fpth st) type b frags sql)
                             | None \<Rightarrow>
                                 (case readSqlFile h (sqls_conn S) (st_fpth st) (st_ext st) file of
                                    Inl e \<Rightarrow> (Inl e, S)
                                  | Inr sql \<Rightarrow>
                                      genExecSqlFromFileFunction
                                        (S\<lparr> sqls_cache := map_option (\<lambda>cache. cache(ident \<mapsto> sql)) (sqls_cache S) \<rparr>)
                                        (st_fpth st) type b frags sql))))))"

subsection \<open>\<^verbatim>\<open>SQLS.init\<close>: building the prepared statements from the files\<close>

definition is_alnum :: "char \<Rightarrow> bool" where
  "is_alnum x = (is_alpha x \<or> is_digit x)"

text \<open>\<^verbatim>\<open>replace(/[^0-9a-zA-Z]/g, '_')\<close> for a directory and
  \<^verbatim>\<open>replace(/[^0-9a-zA-Z\.]/g, '_')\<close> for a file.\<close>

definition sanitize_dir :: "string \<Rightarrow> string" where
  "sanitize_dir f = map (\<lambda>x. if is_alnum x then x else CHR ''_'') f"

definition sanitize_file :: "string \<Rightarrow> string" where
  "sanitize_file f = map (\<lambda>x. if is_alnum x \<or> x = CHR ''.'' then x else CHR ''_'') f"

text \<open>\<^verbatim>\<open>nm.split('.')\<close>\<close>

fun split_dot :: "string \<Rightarrow> string list" where
  "split_dot [] = [[]]"
| "split_dot (x # xs) =
     (if x = CHR ''.'' then [] # split_dot xs
      else (case split_dot xs of [] \<Rightarrow> [[x]] | w # ws \<Rightarrow> (x # w) # ws))"

text \<open>\<^verbatim>\<open>ns.join('_')\<close>\<close>

fun join_us :: "string list \<Rightarrow> string" where
  "join_us [] = []"
| "join_us [w] = w"
| "join_us (w # v # ws) = w @ ''_'' @ join_us (v # ws)"

text \<open>Setting a property of an object: an existing one keeps its place.\<close>

fun set_prop :: "string \<Rightarrow> 'a \<Rightarrow> (string \<times> 'a) list \<Rightarrow> (string \<times> 'a) list" where
  "set_prop k v [] = [(k, v)]"
| "set_prop k v (p # ps) = (if fst p = k then (k, v) # ps else p # set_prop k v ps)"

text \<open>
  The loop over the segments \<^verbatim>\<open>ns\<close> of a file's name, from the object \<open>so\<close>:
  \<^verbatim>\<open>so[ns[ni]] = so[ns[ni]] || (ni < nl - 1 ? {} : await sqls.this.prepared(nm, pth, ext))\<close>,
  then \<^verbatim>\<open>so = so[ns[ni]]\<close>. It gives the object \<open>so\<close> with the segments added below it.
  Reading \<^verbatim>\<open>so[ns[ni]]\<close> finds the property the module has set, or else what the host
  provides under that name: a truthy value of the host is assigned back, and nothing is
  prepared. When a segment is left and \<open>so\<close> has become an object of the host, the
  module goes on to read and write the properties of that object; the model stops there.
\<close>

fun assign :: "host \<Rightarrow> string \<Rightarrow> string \<Rightarrow> string \<Rightarrow> string option \<Rightarrow> string list \<Rightarrow> tnode
    \<Rightarrow> sqls \<Rightarrow> error + (tnode \<times> sqls)" where
  "assign h nm pth ext file [] so S = Inr (so, S)"
| "assign h nm pth ext file (k # ks) THost S = Inl (Unmodelled pth)"
| "assign h nm pth ext file (k # ks) (TNode fn kids) S =
     (case map_of kids k of
        Some child \<Rightarrow>
          (case assign h nm pth ext file ks child S of
             Inl e \<Rightarrow> Inl e
           | Inr (child', S') \<Rightarrow> Inr (TNode fn (set_prop k child' kids), S'))
      | None \<Rightarrow>
          (case h_prop h (fn \<noteq> None) k of
             HAbsent \<Rightarrow>
               if ks \<noteq> []
               then (case assign h nm pth ext file ks (TNode None []) S of
                       Inl e \<Rightarrow> Inl e
                     | Inr (child', S') \<Rightarrow> Inr (TNode fn (set_prop k child' kids), S'))
               else (case prepared h S nm pth ext file of
                       Inl e \<Rightarrow> Inl e
                     | Inr (st, S') \<Rightarrow> Inr (TNode fn (set_prop k (TNode (Some st) []) kids), S'))
           | HWritable \<Rightarrow>
               (case assign h nm pth ext file ks THost S of
                  Inl e \<Rightarrow> Inl e
                | Inr (child', S') \<Rightarrow> Inr (TNode fn (set_prop k child' kids), S'))
           | HReadOnly \<Rightarrow> Inl (TypeError ''Cannot assign to read only property'')
           | HAccessor \<Rightarrow>
               (case assign h nm pth ext file ks THost S of
                  Inl e \<Rightarrow> Inl e
                | Inr (child', S') \<Rightarrow> Inr (TNode fn kids, S'))
           | HThrows \<Rightarrow> Inl (TypeError ''restricted function property'')))"

text \<open>
  \<^verbatim>\<open>prepare(cont, pnm, pdir)\<close> on the directory \<open>node\<close> at path \<open>pdir\<close>. The source starts
  the walk of a subdirectory and goes on with the next entry while that walk is pending;
  here the walk of a subdirectory is finished before the next entry is taken, one of
  the orders the source allows. For a subdirectory the source assigns a new object to
  \<^verbatim>\<open>cont[nm]\<close>, whatever is there: the assignment raises for a property of the host that
  cannot be written, and through a setter of the host (a directory \<^verbatim>\<open>__proto__\<close>) it
  changes what \<open>cont\<close> inherits, where the model stops.
\<close>

fun prepare :: "host \<Rightarrow> fsnode \<Rightarrow> string \<Rightarrow> string \<Rightarrow> tnode \<Rightarrow> sqls \<Rightarrow> error + (tnode \<times> sqls)"
  and prepare_files :: "host \<Rightarrow> (string \<times> fsnode) list \<Rightarrow> string \<Rightarrow> string \<Rightarrow> tnode \<Rightarrow> sqls
    \<Rightarrow> error + (tnode \<times> sqls)" where
  "prepare h (Dir files) pnm pdir cont S = prepare_files h files pnm pdir cont S"
| "prepare h (File _) pnm pdir cont S = Inl (IOError pdir)"
| "prepare h NoList pnm pdir cont S = Inl (IOError pdir)"
| "prepare_files h [] pnm pdir cont S = Inr (cont, S)"
| "prepare_files h ((f, File file) # rest) pnm pdir cont S =
     (let pth = pdir @ ''/'' @ f;
          ns0 = split_dot (sanitize_file f);
          ext = (if length ns0 > 1 then last ns0 else []);
          ns = (if length ns0 > 1 then butlast ns0 else ns0);
          nm = conn_dialect (sqls_conn S) @ ''_'' @ conn_name (sqls_conn S) @ ''_''
               @ (if pnm \<noteq> [] then pnm @ ''_'' else []) @ join_us ns
      in case assign h nm pth ext file ns cont S of
           Inl e \<Rightarrow> Inl e
         | Inr (cont', S') \<Rightarrow> prepare_files h rest pnm pdir cont' S')"
| "prepare_files h ((f, Dir files) # rest) pnm pdir (TNode fn kids) S =
     (let nm = sanitize_dir f
      in case (if map_of kids nm = None then h_prop h (fn \<noteq> None) nm else HAbsent) of
           HReadOnly \<Rightarrow> Inl (TypeError ''Cannot assign to read only property'')
         | HThrows \<Rightarrow> Inl (TypeError ''restricted function property'')
         | HAccessor \<Rightarrow> Inl (Unmodelled (pdir @ ''/'' @ f))
         | _ \<Rightarrow>
             (case prepare h (Dir files) ((if pnm \<noteq> [] then pnm @ ''_'' else []) @ nm)
                     (pdir @ ''/'' @ f) (TNode None []) S of
                Inl e \<Rightarrow> Inl e
              | Inr (sub, S') \<Rightarrow> prepare_files h rest pnm pdir (TNode fn (set_prop nm sub kids)) S'))"
| "prepare_files h ((f, Dir files) # rest) pnm pdir THost S = Inl (Unmodelled (pdir @ ''/'' @ f))"
| "prepare_files h ((f, NoList) # rest) pnm pdir cont S = Inl (IOError (pdir @ ''/'' @ f))"

text \<open>\<^verbatim>\<open>SQLS.init()\<close>: the answer is the driver's, to the number of statements prepared.\<close>

definition SQLS_init :: "host \<Rightarrow> sqls \<Rightarrow> (error + jsval) \<times> sqls" where
  "SQLS_init h S =
     (let S0 = S\<lparr> sqls_numOfPreparedStmts := 0 \<rparr> in
      case prepare h (sqls_root S0) [] (sqls_basePath S0) (sqls_db S0) S0 of
        Inl e \<Rightarrow> (Inl e, S0)
      | Inr (db, S1) \<Rightarrow>
          (dbx_init (sqls_dbx S1) (sqls_numOfPreparedStmts S1), S1\<lparr> sqls_db := db \<rparr>))"

definition SQLS_commit :: "sqls \<Rightarrow> (error + jsval) \<times> sqls" where
  "SQLS_commit S = (dbx_commit (sqls_dbx S) (dbs_pending (sqls_dbs S)), S)"

definition SQLS_rollback :: "sqls \<Rightarrow> (error + jsval) \<times> sqls" where
  "SQLS_rollback S = (dbx_rollback (sqls_dbx S) (dbs_pending (sqls_dbs S)), S)"

definition SQLS_close :: "sqls \<Rightarrow> (error + jsval) \<times> sqls" where
  "SQLS_close S = (dbx_close (sqls_dbx S) (dbs_pending (sqls_dbs S)), S)"

section \<open>The \<^verbatim>\<open>Manager\<close> and its lifecycle operations\<close>

record manager =
  m_sqls :: "sqls list"
  m_sqlsCount :: "nat option"

datatype funcName = FInit | FCommit | FRollback | FClose

datatype lane = Series | Parallel

text \<open>The options of a lifecycle operation; an absent property is \<open>JUndefined\<close>.\<close>

record op_opts =
  oo_connections :: jsval
  oo_executeInSeries :: jsval

text \<open>\<^verbatim>\<open>sqli[funcName]()\<close>\<close>

fun sqli_call :: "host \<Rightarrow> funcName \<Rightarrow> sqls \<Rightarrow> (error + jsval) \<times> sqls" where
  "sqli_call h FInit S = SQLS_init h S"
| "sqli_call h FCommit S = SQLS_commit S"
| "sqli_call h FRollback S = SQLS_rollback S"
| "sqli_call h FClose S = SQLS_close S"

text \<open>
  \<^verbatim>\<open>queue(sqli)\<close> of \<^verbatim>\<open>operation\<close>: the lane the task of a connection is put on. The
  override is looked up under \<^verbatim>\<open>name\<close>, which neither \<^verbatim>\<open>queue\<close>, \<^verbatim>\<open>operation\<close> nor the
  module declares: the lookup \<^verbatim>\<open>opts.connections[name]\<close> is evaluated when
  \<^verbatim>\<open>opts.connections\<close> is truthy, and raises.
\<close>

definition queue :: "op_opts \<Rightarrow> sqls \<Rightarrow> error + lane" where
  "queue opts sqli =
     (if truthy (oo_connections opts) then Inl (ReferenceError ''name is not defined'')
      else Inr (if truthy (oo_executeInSeries opts) then Series else Parallel))"

text \<open>The loop of \<^verbatim>\<open>operation\<close> over the connections: the tasks queued, each with its
  connection name and lane.\<close>

fun queue_all :: "op_opts \<Rightarrow> string list \<Rightarrow> sqls list \<Rightarrow> error + (string \<times> lane) list" where
  "queue_all opts connNames [] = Inr []"
| "queue_all opts connNames (sqli # rest) =
     (if connNames \<noteq> [] \<and> conn_name (sqls_conn sqli) \<notin> set connNames
      then queue_all opts connNames rest
      else (case queue opts sqli of
              Inl e \<Rightarrow> Inl e
            | Inr l \<Rightarrow>
                (case queue_all opts connNames rest of
                   Inl e \<Rightarrow> Inl e
                 | Inr q \<Rightarrow> Inr ((conn_name (sqls_conn sqli), l) # q))))"

text \<open>
  Modelled from the spec: \<^verbatim>\<open>ax.run()\<close> of the library Asynchro, which the module
  requires and which is not part of it. The result maps each queued connection name to
  the result of its task, and a failing task fails the run. The tasks are run one after
  the other in the order they were queued, whatever their lane, which is one of the
  orders the two lanes allow, and the run ends at the first failure.
\<close>

fun run :: "host \<Rightarrow> funcName \<Rightarrow> string list \<Rightarrow> sqls list \<Rightarrow> (string \<times> jsval) list
    \<Rightarrow> (error + (string \<times> jsval) list) \<times> sqls list" where
  "run h fn connNames [] rslt = (Inr rslt, [])"
| "run h fn connNames (sqli # rest) rslt =
     (if connNames \<noteq> [] \<and> conn_name (sqls_conn sqli) \<notin> set connNames
      then (case run h fn connNames rest rslt of (r, rest') \<Rightarrow> (r, sqli # rest'))
      else (case sqli_call h fn sqli of
              (Inl e, sqli') \<Rightarrow> (Inl e, sqli' # rest)
            | (Inr v, sqli') \<Rightarrow>
                (case run h fn connNames rest (set_prop (conn_name (sqls_conn sqli)) v rslt) of
                   (r, rest') \<Rightarrow> (r, sqli' # rest'))))"

text \<open>\<^verbatim>\<open>operation(mgr, funcName, opts, connNames)\<close>; \<open>opts = None\<close> is a call without
  options.\<close>

definition operation :: "host \<Rightarrow> manager \<Rightarrow> funcName \<Rightarrow> op_opts option \<Rightarrow> string list
    \<Rightarrow> (error + (string \<times> jsval) list) \<times> manager" where
  "operation h mgr fn opts connNames =
     (let opts' = (case opts of
                     None \<Rightarrow> \<lparr> oo_connections = JUndefined, oo_executeInSeries = JUndefined \<rparr>
                   | Some oo \<Rightarrow> oo)
      in case queue_all opts' connNames (m_sqls mgr) of
           Inl e \<Rightarrow> (Inl e, mgr)
         | Inr q \<Rightarrow>
             (case run h fn connNames (m_sqls mgr) [] of
                (r, sqls') \<Rightarrow> (r, mgr\<lparr> m_sqls := sqls' \<rparr>)))"


definition Manager_commit :: "host \<Rightarrow> manager \<Rightarrow> op_opts option \<Rightarrow> string list
    \<Rightarrow> (error + (string \<times> jsval) list) \<times> manager" where
  "Manager_commit h mgr opts connNames = operation h mgr FCommit opts connNames"

definition Manager_rollback :: "host \<Rightarrow> manager \<Rightarrow> op_opts option \<Rightarrow> string list
    \<Rightarrow> (error + (string \<times> jsval) list) \<times> manager" where
  "Manager_rollback h mgr opts connNames = operation h mgr FRollback opts connNames"

definition Manager_close :: "host \<Rightarrow> manager \<Rightarrow> (error + (string \<times> jsval) list) \<times> manager" where
  "Manager_close h mgr = operation h mgr FClose None []"


section \<open>Example configurations\<close>

text \<open>
  The properties of a plain object and of an async function in Node.js: a plain object
  inherits those of \<^verbatim>\<open>Object.prototype\<close>; a function has \<^verbatim>\<open>length\<close> and \<^verbatim>\<open>name\<close>, and
  inherits those of \<^verbatim>\<open>AsyncFunction.prototype\<close>, \<^verbatim>\<open>Function.prototype\<close> and
  \<^verbatim>\<open>Object.prototype\<close>.
\<close>

definition node_prop :: "bool \<Rightarrow> string \<Rightarrow> hprop" where
  "node_prop fn k =
     (if k = ''__proto__'' then HAccessor
      else if fn \<and> k \<in> set [''length'', ''name'', ''constructor''] then HReadOnly
      else if fn \<and> k \<in> set [''caller'', ''arguments''] then HThrows
      else if fn \<and> k \<in> set [''apply'', ''bind'', ''call''] then HWritable
      else if k \<in> set [''constructor'', ''hasOwnProperty'', ''isPrototypeOf'',
                        ''propertyIsEnumerable'', ''toLocaleString'', ''toString'', ''valueOf'',
                        ''__defineGetter__'', ''__defineSetter__'', ''__lookupGetter__'',
                        ''__lookupSetter__'']
      then HWritable
      else HAbsent)"

definition ex_host :: host where
  "ex_host = \<lparr> h_iso = (\<lambda>ms. ''1970-01-01T00:00:00.000Z''), h_json_parse = (\<lambda>s. Inr (JStr s)),
               h_prop = node_prop \<rparr>"

definition ex_driver :: driver where
  "ex_driver = \<lparr> dbx_init = (\<lambda>n. Inr (JNum (of_nat n))),
                 dbx_exec = (\<lambda>sql opts pending frags. Inr (JArr [])),
                 dbx_commit = (\<lambda>pending. Inr JUndefined),
                 dbx_rollback = (\<lambda>pending. Inr JUndefined),
                 dbx_close = (\<lambda>pending. Inr JUndefined) \<rparr>"

definition ex_failing_driver :: driver where
  "ex_failing_driver =
     ex_driver\<lparr> dbx_exec := (\<lambda>sql opts pending frags. Inl (DriverError ''ORA-00942'')) \<rparr>"

definition ex_conn :: "string \<Rightarrow> conn" where
  "ex_conn nm = \<lparr> conn_name = nm, conn_dialect = ''oracle'', conn_version = Some 2,
                  conn_binds = None, conn_logging = False, conn_substitute = (\<lambda>s. s) \<rparr>"

definition ex_sqls :: "string \<Rightarrow> driver \<Rightarrow> fsnode \<Rightarrow> sqls" where
  "ex_sqls nm dbx files = new_SQLS (''/app/'' @ nm) None files dbx (ex_conn nm)"

definition ex_opts :: call_opts where
  "ex_opts = \<lparr> o_type = JUndefined, o_binds = None, o_returnErrors = JUndefined \<rparr>"

text \<open>One connection with one statement file, one with three.\<close>

definition ex_filesA :: fsnode where
  "ex_filesA = Dir [(''read.users.sql'', File (Some ''SELECT * FROM users''))]"

definition ex_filesB :: fsnode where
  "ex_filesB = Dir [(''create.user.sql'', File (Some ''INSERT INTO users VALUES (:id)'')),
                    (''reports'', Dir [(''read.totals.sql'', File (Some ''SELECT 1''))]),
                    (''update.user.sql'', File (Some ''UPDATE users SET n = :n''))]"

definition ex_manager :: manager where
  "ex_manager = \<lparr> m_sqls = [ex_sqls ''connA'' ex_driver ex_filesA,
                             ex_sqls ''connB'' ex_driver ex_filesB],
                  m_sqlsCount = None \<rparr>"


text \<open>A connection with default binds, a date among them.\<close>

definition ex_conn_since :: conn where
  "ex_conn_since = (ex_conn ''connA'')\<lparr> conn_binds := Some [(''since'', JDate (Some 0)), (''n'', JNum 1)] \<rparr>"

definition ex_sqls_since :: sqls where
  "ex_sqls_since = new_SQLS ''/app/connA'' None ex_filesA ex_driver ex_conn_since"

section \<open>The bind set of a call, as the specification describes it\<close>

text \<open>
  An object is given by its entries, and the value of a property is that of its last
  entry.
\<close>

definition obj_get :: "(string \<times> jsval) list \<Rightarrow> string \<Rightarrow> jsval option" where
  "obj_get ps k = map_of (rev ps) k"

text \<open>The fixed textual representation of a date: its ISO text. Any other value is
  taken as it is.\<close>

definition iso_text :: "host \<Rightarrow> jsval \<Rightarrow> jsval" where
  "iso_text h v = (case v of JDate (Some ms) \<Rightarrow> JStr (h_iso h ms) | _ \<Rightarrow> v)"

text \<open>
  The merged bind set: a bind of the call, with a date normalized, overrides the
  connection's default of the same name; a default that the call does not override is
  taken as it is.
\<close>

definition spec_binds :: "host \<Rightarrow> conn \<Rightarrow> call_opts \<Rightarrow> binds" where
  "spec_binds h c co k =
     (case obj_get (case o_binds co of None \<Rightarrow> [] | Some ob \<Rightarrow> ob) k of
        Some v \<Rightarrow> Some (iso_text h v)
      | None \<Rightarrow> obj_get (case conn_binds c of None \<Rightarrow> [] | Some cb \<Rightarrow> cb) k)"

text \<open>A bind of the call is an invalid date, which has no ISO text.\<close>

definition invalid_date :: "call_opts \<Rightarrow> bool" where
  "invalid_date co =
     (case o_binds co of None \<Rightarrow> False | Some ob \<Rightarrow> list_ex (\<lambda>p. snd p = JDate None) ob)"

text \<open>
  The text the method stored for a prepared statement hands to the execution
  (\<^verbatim>\<open>staticSql\<close>: the text read when the statement was prepared; \<^verbatim>\<open>cachedSql\<close>: the
  item of the cache, or the file read again and put into the cache), with the state
  after it.
\<close>

definition stmt_sql :: "host \<Rightarrow> sqls \<Rightarrow> stmt \<Rightarrow> error + (jsval \<times> sqls)" where
  "stmt_sql h S st =
     (case sqls_stms S (st_name st) of
        None \<Rightarrow> Inl (TypeError ''Cannot read property of undefined'')
      | Some methods \<Rightarrow>
          (case methods (st_ext st) of
             None \<Rightarrow> Inl (TypeError ''sqls.at.stms.methods[name][ext] is not a function'')
           | Some (StaticSql sql) \<Rightarrow> Inr (sql, S)
           | Some (CachedSql ident file) \<Rightarrow>
               (case (case sqls_cache S of None \<Rightarrow> None | Some cache \<Rightarrow> cache ident) of
                  Some item \<Rightarrow>
                    if truthy item then Inr (item, S)
                    else (case readSqlFile h (sqls_conn S) (st_fpth st) (st_ext st) file of
                            Inl e \<Rightarrow> Inl e
                          | Inr sql \<Rightarrow>
                              Inr (sql, S\<lparr> sqls_cache := map_option (\<lambda>cache. cache(ident \<mapsto> sql)) (sqls_cache S) \<rparr>))
                | None \<Rightarrow>
                    (case readSqlFile h (sqls_conn S) (st_fpth st) (st_ext st) file of
                       Inl e \<Rightarrow> Inl e
                     | Inr sql \<Rightarrow>
                         Inr (sql, S\<lparr> sqls_cache := map_option (\<lambda>cache. cache(ident \<mapsto> sql)) (sqls_cache S) \<rparr>)))))"

section \<open>Bind tokens, as the specification describes them\<close>

text \<open>
  The bind tokens of a text: a colon, letters, at least one, then optional digits. Each
  token is given by its letters and its digits, in the order of the text; its name is
  the letters followed by the digits.
\<close>

fun spec_tokens :: "string \<Rightarrow> (string \<times> string) list" where
  "spec_tokens [] = []"
| "spec_tokens (x # s) =
     (if x = CHR '':'' \<and> takeWhile is_alpha s \<noteq> []
      then [(takeWhile is_alpha s, takeWhile is_digit (dropWhile is_alpha s))] else [])
     @ spec_tokens s"

section \<open>Auxiliary functions of the proofs\<close>

fun cm :: "(string \<Rightarrow> caps \<Rightarrow> (string \<times> caps) list) \<Rightarrow> (string \<times> caps) list
    \<Rightarrow> (string \<times> caps) list" where
  "cm f [] = []"
| "cm f (p # ps) = f (fst p) (snd p) @ cm f ps"

definition star_next :: "bool \<Rightarrow> rx \<Rightarrow> nat \<Rightarrow> string \<Rightarrow> caps \<Rightarrow> (string \<times> caps) list" where
  "star_next g r n s c = (if length s < n then rx_match (Star g r) s c else [])"

definition grp_set :: "nat \<Rightarrow> string \<Rightarrow> string \<Rightarrow> caps \<Rightarrow> (string \<times> caps) list" where
  "grp_set n s s1 c1 = [(s1, c1(n \<mapsto> take (length s - length s1) s))]"

text \<open>A text has a guard marker when \<^verbatim>\<open>[[\<close> occurs in it.\<close>

fun has_marker :: "string \<Rightarrow> bool" where
  "has_marker (x # y # r) = ((x = CHR ''['' \<and> y = CHR ''['') \<or> has_marker (y # r))"
| "has_marker _ = False"

text \<open>A pattern without capture groups.\<close>

fun groupfree :: "rx \<Rightarrow> bool" where
  "groupfree Eps = True"
| "groupfree (Cls P) = True"
| "groupfree (Seq a b) = (groupfree a \<and> groupfree b)"
| "groupfree (Alt a b) = (groupfree a \<and> groupfree b)"
| "groupfree (Star g r) = groupfree r"
| "groupfree (Group n r) = False"
| "groupfree (NegLook r) = groupfree r"

text \<open>
  The bind tokens of a text: the names the array pattern captures, in the order of the
  scan. A bind value is a collection to expand when it is an array with an element.
\<close>

definition tokens :: "string \<Rightarrow> string list" where
  "tokens s = snd (replace_all sqlArrayRx (\<lambda>c ks. (grp c 1 @ grp c 2, ks @ [grp c 2])) s [])"

definition is_collection :: "jsval option \<Rightarrow> bool" where
  "is_collection v = (case v of Some (JArr (x # xs)) \<Rightarrow> True | _ \<Rightarrow> False)"

text \<open>The bind set has no collection for any bind token of the text.\<close>

definition no_collection :: "string \<Rightarrow> binds option \<Rightarrow> bool" where
  "no_collection s rplmts =
     (case rplmts of None \<Rightarrow> True | Some b \<Rightarrow> list_all (\<lambda>k. \<not> is_collection (b k)) (tokens s))"

text \<open>
  No bind token of the text names a collection to expand, neither by its name nor by
  the letters of its name alone.
\<close>

definition no_collection_named :: "string \<Rightarrow> binds option \<Rightarrow> bool" where
  "no_collection_named s rplmts =
     (case rplmts of
        None \<Rightarrow> True
      | Some b \<Rightarrow> list_all (\<lambda>t. \<not> is_collection (b (fst t @ snd t)) \<and> \<not> is_collection (b (fst t)))
                    (spec_tokens s))"


declare rx_match.simps [simp del] replace_all.simps [simp del] string_of_nat.simps [simp del]

section \<open>Evaluating the matcher\<close>

text \<open>
  Equations for the matcher that name no function under a binder, so that the
  simplifier can run them on a concrete text: \<open>cm f ps\<close> tries \<open>f\<close> on each result of
  \<open>ps\<close> in turn.
\<close>

lemma cm_concat: "cm f ps = concat (map (\<lambda>p. f (fst p) (snd p)) ps)"
  by (induction ps) auto

lemma cm_append: "cm f (ps @ qs) = cm f ps @ cm f qs"
  by (induction ps) auto

lemma rx_Eps: "rx_match Eps s c = [(s, c)]"
  by (simp add: rx_match.simps(1))

lemma rx_Cls_Nil: "rx_match (Cls P) [] c = []"
  by (simp add: rx_match.simps(2))

lemma rx_Cls_Cons: "rx_match (Cls P) (x # xs) c = (if P x then [(xs, c)] else [])"
  by (simp add: rx_match.simps(2))

lemma rx_Seq: "rx_match (Seq a b) s c = cm (rx_match b) (rx_match a s c)"
  by (simp add: cm_concat rx_match.simps(3))

lemma rx_Alt: "rx_match (Alt a b) s c = rx_match a s c @ rx_match b s c"
  by (simp add: rx_match.simps(4))

lemma rx_Star:
  "rx_match (Star g r) s c =
     (if g then cm (star_next g r (length s)) (rx_match r s c) @ [(s, c)]
      else (s, c) # cm (star_next g r (length s)) (rx_match r s c))"
proof -
  have "cm (star_next g r (length s)) ps =
        concat (map (\<lambda>p. if length (fst p) < length s
                          then rx_match (Star g r) (fst p) (snd p) else []) ps)" for ps
    by (induction ps) (auto simp: star_next_def)
  then have "rx_match (Star g r) s c =
     (let more = cm (star_next g r (length s)) (rx_match r s c)
      in if g then more @ [(s, c)] else (s, c) # more)"
    by (subst rx_match.simps(5)) simp
  then show ?thesis
    by (cases g) (simp_all add: Let_def)
qed

lemma rx_Group: "rx_match (Group n r) s c = cm (grp_set n s) (rx_match r s c)"
proof -
  have "cm (grp_set n s) ps =
        map (\<lambda>p. (fst p, (snd p)(n \<mapsto> take (length s - length (fst p)) s))) ps" for ps
    by (induction ps) (auto simp: grp_set_def)
  then show ?thesis by (simp add: rx_match.simps(6))
qed

lemma rx_NegLook: "rx_match (NegLook r) s c = (if rx_match r s c = [] then [(s, c)] else [])"
  by (simp add: rx_match.simps(7))

lemma cm_single: "cm f [p] = f (fst p) (snd p)"
  by simp

lemma rx_Star_Cls_Nil: "rx_match (Star g (Cls P)) [] c = [([], c)]"
  by (simp add: rx_Star rx_Cls_Nil)

lemma rx_Star_Cls_Cons:
  "rx_match (Star g (Cls P)) (x # xs) c =
     (if g then (if P x then rx_match (Star g (Cls P)) xs c else []) @ [(x # xs, c)]
      else (x # xs, c) # (if P x then rx_match (Star g (Cls P)) xs c else []))"
  by (subst rx_Star) (simp add: rx_Cls_Cons star_next_def)

lemma rx_chr_Nil: "rx_match (chr x) [] c = []"
  by (simp add: chr_def rx_Cls_Nil)

lemma rx_chr_Cons: "rx_match (chr x) (y # ys) c = (if y = x then [(ys, c)] else [])"
  by (simp add: chr_def rx_Cls_Cons)

lemma rx_seqs_Nil: "rx_match (seqs []) s c = [(s, c)]"
  by (simp add: seqs_def rx_Eps)

lemma rx_seqs_Cons: "rx_match (seqs (a # rs)) s c = cm (rx_match (seqs rs)) (rx_match a s c)"
  by (simp add: seqs_def rx_Seq)

lemma rx_lit_Nil: "rx_match (lit []) s c = [(s, c)]"
  by (simp add: lit_def rx_Eps)

lemma rx_lit_Cons_Nil: "rx_match (lit (x # w)) [] c = []"
  by (simp add: lit_def rx_Seq rx_chr_Nil)

lemma rx_lit_Cons: "rx_match (lit (x # w)) (y # ys) c = (if y = x then rx_match (lit w) ys c else [])"
  by (simp add: lit_def rx_Seq rx_chr_Cons)

lemma rx_lit_ci_Nil: "rx_match (lit_ci []) s c = [(s, c)]"
  by (simp add: lit_ci_def rx_Eps)

lemma rx_lit_ci_Cons_Nil: "rx_match (lit_ci (x # w)) [] c = []"
  by (simp add: lit_ci_def rx_Seq rx_Cls_Nil)

lemma rx_lit_ci_Cons:
  "rx_match (lit_ci (x # w)) (y # ys) c =
     (if to_lower y = to_lower x then rx_match (lit_ci w) ys c else [])"
  by (simp add: lit_ci_def rx_Seq rx_Cls_Cons)

lemma rx_opt: "rx_match (opt r) s c = rx_match r s c @ [(s, c)]"
  by (simp add: opt_def rx_Alt rx_Eps)

lemma rx_plus: "rx_match (plus r) s c = cm (rx_match (Star True r)) (rx_match r s c)"
  by (simp add: plus_def rx_Seq)

lemma rx_dashes_Nil: "rx_match dashes [] c = [([], c)]"
  by (simp add: dashes_def upto2_def rx_opt rx_Seq rx_chr_Nil)

lemma rx_dashes_Cons:
  "rx_match dashes (x # xs) c =
     (if x = CHR ''-'' then cm (rx_match (opt (chr CHR ''-''))) [(xs, c)] @ [(x # xs, c)]
      else [(x # xs, c)])"
  by (simp add: dashes_def upto2_def rx_opt rx_Seq rx_chr_Cons)

lemma rx_nls_Nil: "rx_match nls [] c = [([], c)]"
  by (simp add: nls_def rx_Star rx_Alt rx_Seq rx_opt rx_chr_Nil)

lemma rx_nls_Cons:
  "rx_match nls (x # xs) c =
     (if x = CHR 0x0A then rx_match nls xs c @ rx_match nls xs c @ [(x # xs, c)]
      else if x = CHR 0x0D
      then cm (star_next True (Alt (Seq (opt (chr (CHR 0x0D))) (chr (CHR 0x0A))) (chr (CHR 0x0A)))
                 (Suc (length xs))) (rx_match (chr (CHR 0x0A)) xs c) @ [(x # xs, c)]
      else [(x # xs, c)])"
  by (simp add: nls_def rx_Star rx_Alt rx_Seq rx_opt rx_chr_Cons star_next_def)

lemma star_next_nls:
  "star_next True (Alt (Seq (opt (chr (CHR 0x0D))) (chr (CHR 0x0A))) (chr (CHR 0x0A))) n s c =
     (if length s < n then rx_match nls s c else [])"
  by (simp add: star_next_def nls_def)

lemmas rx_guardRx = guardRx_def [THEN arg_cong, of rx_match, THEN fun_cong, THEN fun_cong]
lemmas rx_sqlVerRx = sqlVerRx_def [THEN arg_cong, of rx_match, THEN fun_cong, THEN fun_cong]
lemmas rx_sqlArrayRx = sqlArrayRx_def [THEN arg_cong, of rx_match, THEN fun_cong, THEN fun_cong]

lemma rx_match_cong: "s = s' \<Longrightarrow> c = c' \<Longrightarrow> rx_match r s c = rx_match r s' c'"
  by simp

lemma cm_cong: "ps = ps' \<Longrightarrow> cm f ps = cm f ps'"
  by simp

lemma match_here_cong: "s = s' \<Longrightarrow> match_here r s = match_here r s'"
  by simp

lemma replace_all_cong: "s = s' \<Longrightarrow> st = st' \<Longrightarrow> replace_all r f s st = replace_all r f s' st'"
  by simp

text \<open>The character classes are evaluated on character literals only.\<close>

lemmas is_digit_Char = is_digit_def [of "Char b0 b1 b2 b3 b4 b5 b6 b7"] for b0 b1 b2 b3 b4 b5 b6 b7
lemmas is_lower_Char = is_lower_def [of "Char b0 b1 b2 b3 b4 b5 b6 b7"] for b0 b1 b2 b3 b4 b5 b6 b7
lemmas is_upper_Char = is_upper_def [of "Char b0 b1 b2 b3 b4 b5 b6 b7"] for b0 b1 b2 b3 b4 b5 b6 b7
lemmas is_space_Char = is_space_def [of "Char b0 b1 b2 b3 b4 b5 b6 b7"] for b0 b1 b2 b3 b4 b5 b6 b7
lemmas to_lower_Char = to_lower_def [of "Char b0 b1 b2 b3 b4 b5 b6 b7"] for b0 b1 b2 b3 b4 b5 b6 b7
lemmas to_upper_Char = to_upper_def [of "Char b0 b1 b2 b3 b4 b5 b6 b7"] for b0 b1 b2 b3 b4 b5 b6 b7

lemmas rx_eval =
  rx_Eps rx_Cls_Nil rx_Cls_Cons rx_Seq rx_Alt rx_Group rx_NegLook
  rx_Star_Cls_Nil rx_Star_Cls_Cons rx_chr_Nil rx_chr_Cons rx_seqs_Nil rx_seqs_Cons
  rx_lit_Nil rx_lit_Cons_Nil rx_lit_Cons rx_lit_ci_Nil rx_lit_ci_Cons_Nil rx_lit_ci_Cons
  rx_opt rx_plus rx_dashes_Nil rx_dashes_Cons rx_nls_Nil rx_nls_Cons star_next_nls
  rx_guardRx rx_sqlVerRx rx_sqlArrayRx cm.simps grp_set_def match_here_def
  is_word_def is_alpha_def is_alnum_def
  is_digit_Char is_lower_Char is_upper_Char is_space_Char to_lower_Char to_upper_Char



section \<open>Evaluating \<^verbatim>\<open>replace\<close>\<close>

lemma guardRx_first:
  "x \<noteq> CHR 0x0A \<Longrightarrow> x \<noteq> CHR 0x0D \<Longrightarrow> x \<noteq> CHR ''-'' \<Longrightarrow> x \<noteq> CHR ''['' \<Longrightarrow>
   match_here (guardRx mk) (x # xs) = None"
  by (simp add: rx_eval cong: rx_match_cong cm_cong)

lemma sqlVerRx_first:
  "x \<noteq> CHR 0x0A \<Longrightarrow> x \<noteq> CHR 0x0D \<Longrightarrow> x \<noteq> CHR ''-'' \<Longrightarrow> x \<noteq> CHR ''['' \<Longrightarrow>
   match_here sqlVerRx (x # xs) = None"
  by (simp add: rx_eval cong: rx_match_cong cm_cong)

lemma sqlArrayRx_first: "x \<noteq> CHR '':'' \<Longrightarrow> match_here sqlArrayRx (x # xs) = None"
  by (simp add: rx_eval cong: rx_match_cong cm_cong)

lemma guardRx_Nil: "match_here (guardRx mk) [] = None"
  by (simp add: rx_eval cong: rx_match_cong cm_cong)

lemma sqlVerRx_Nil: "match_here sqlVerRx [] = None"
  by (simp add: rx_eval cong: rx_match_cong cm_cong)

lemma sqlArrayRx_Nil: "match_here sqlArrayRx [] = None"
  by (simp add: rx_eval cong: rx_match_cong cm_cong)

lemma replace_all_Nil: "match_here r [] = None \<Longrightarrow> replace_all r f [] st = ([], st)"
  by (subst replace_all.simps) simp

lemma replace_all_None:
  "match_here r (x # xs) = None \<Longrightarrow>
   replace_all r f (x # xs) st = apfst ((#) x) (replace_all r f xs st)"
  by (subst replace_all.simps) (simp add: apfst_def map_prod_def split: prod.splits)

lemma replace_all_Cons:
  "replace_all r f (x # xs) st =
     (case match_here r (x # xs) of
        None \<Rightarrow> apfst ((#) x) (replace_all r f xs st)
      | Some p \<Rightarrow>
          (case f (snd p) st of
             (rep, st1) \<Rightarrow>
               if length (fst p) < Suc (length xs)
               then apfst ((@) rep) (replace_all r f (fst p) st1)
               else apfst (\<lambda>out. rep @ x # out) (replace_all r f xs st1)))"
  by (subst replace_all.simps)
     (simp add: apfst_def map_prod_def split: prod.splits option.splits)

lemma replace_all_guardRx:
  "replace_all (guardRx mk) f (x # xs) st =
     (if x = CHR 0x0A \<or> x = CHR 0x0D \<or> x = CHR ''-'' \<or> x = CHR ''[''
      then (case match_here (guardRx mk) (x # xs) of
              None \<Rightarrow> apfst ((#) x) (replace_all (guardRx mk) f xs st)
            | Some p \<Rightarrow>
                (case f (snd p) st of
                   (rep, st1) \<Rightarrow>
                     if length (fst p) < Suc (length xs)
                     then apfst ((@) rep) (replace_all (guardRx mk) f (fst p) st1)
                     else apfst (\<lambda>out. rep @ x # out) (replace_all (guardRx mk) f xs st1)))
      else apfst ((#) x) (replace_all (guardRx mk) f xs st))"
  using guardRx_first [of x mk xs] replace_all_Cons [of "guardRx mk" f x xs st]
  by (simp del: apfst_conv)

lemma replace_all_sqlVerRx:
  "replace_all sqlVerRx f (x # xs) st =
     (if x = CHR 0x0A \<or> x = CHR 0x0D \<or> x = CHR ''-'' \<or> x = CHR ''[''
      then (case match_here sqlVerRx (x # xs) of
              None \<Rightarrow> apfst ((#) x) (replace_all sqlVerRx f xs st)
            | Some p \<Rightarrow>
                (case f (snd p) st of
                   (rep, st1) \<Rightarrow>
                     if length (fst p) < Suc (length xs)
                     then apfst ((@) rep) (replace_all sqlVerRx f (fst p) st1)
                     else apfst (\<lambda>out. rep @ x # out) (replace_all sqlVerRx f xs st1)))
      else apfst ((#) x) (replace_all sqlVerRx f xs st))"
  using sqlVerRx_first [of x xs] replace_all_Cons [of sqlVerRx f x xs st]
  by (simp del: apfst_conv)

lemma replace_all_sqlArrayRx:
  "replace_all sqlArrayRx f (x # xs) st =
     (if x = CHR '':''
      then (case match_here sqlArrayRx (x # xs) of
              None \<Rightarrow> apfst ((#) x) (replace_all sqlArrayRx f xs st)
            | Some p \<Rightarrow>
                (case f (snd p) st of
                   (rep, st1) \<Rightarrow>
                     if length (fst p) < Suc (length xs)
                     then apfst ((@) rep) (replace_all sqlArrayRx f (fst p) st1)
                     else apfst (\<lambda>out. rep @ x # out) (replace_all sqlArrayRx f xs st1)))
      else apfst ((#) x) (replace_all sqlArrayRx f xs st))"
  using sqlArrayRx_first [of x xs] replace_all_Cons [of sqlArrayRx f x xs st]
  by (simp del: apfst_conv)

lemma replace_all_guardRx_Nil: "replace_all (guardRx mk) f [] st = ([], st)"
  by (simp add: replace_all_Nil guardRx_Nil)

lemma replace_all_sqlVerRx_Nil: "replace_all sqlVerRx f [] st = ([], st)"
  by (simp add: replace_all_Nil sqlVerRx_Nil)

lemma replace_all_sqlArrayRx_Nil: "replace_all sqlArrayRx f [] st = ([], st)"
  by (simp add: replace_all_Nil sqlArrayRx_Nil)

lemmas frag_eval =
  frag_def frag_str_def replace_def sqlDiaRx_def sqlFragRx_def
  replace_all_guardRx replace_all_sqlVerRx replace_all_sqlArrayRx
  replace_all_guardRx_Nil replace_all_sqlVerRx_Nil replace_all_sqlArrayRx_Nil
  sqlArrayRpl_def sqlDiaRpl_def sqlVerRpl_def sqlFragRpl_def guardRpl_def grp_def
  parseFloat_def decimal_def digit_val_def COMPARE_def toLowerCase_def idx_def
  string_of_nat.simps Let_def



section \<open>Texts without guard markers\<close>

lemma rx_suffix: "p \<in> set (rx_match r s c) \<Longrightarrow> \<exists>u. s = u @ fst p"
proof (induction r s c arbitrary: p rule: rx_match.induct)
  case (1 s c) then show ?case by (simp add: rx_match.simps(1))
next
  case (2 P s c) then show ?case by (cases s; cases p) (auto simp: rx_match.simps(2) split: if_splits)
next
  case (3 a b s c)
  from 3(3) obtain q where q: "q \<in> set (rx_match a s c)" and p: "p \<in> set (rx_match b (fst q) (snd q))"
    by (auto simp: rx_match.simps(3))
  from 3(1)[OF q] obtain u where "s = u @ fst q" by blast
  moreover from 3(2)[OF q p] obtain v where "fst q = v @ fst p" by blast
  ultimately show ?case by simp
next
  case (4 a b s c) then show ?case by (cases p) (auto simp: rx_match.simps(4))
next
  case (5 g r s c)
  from 5(3) have "p \<in> set (let more = concat (map (\<lambda>p. if length (fst p) < length s
                                    then rx_match (Star g r) (fst p) (snd p) else [])
                             (rx_match r s c))
      in if g then more @ [(s, c)] else (s, c) # more)"
    by (subst (asm) rx_match.simps(5))
  then have "p = (s, c) \<or> (\<exists>q \<in> set (rx_match r s c). length (fst q) < length s \<and> p \<in> set (rx_match (Star g r) (fst q) (snd q)))"
    by (auto simp: Let_def split: if_splits)
  then show ?case
  proof
    assume "p = (s, c)" then show ?thesis by simp
  next
    assume "\<exists>q \<in> set (rx_match r s c). length (fst q) < length s \<and> p \<in> set (rx_match (Star g r) (fst q) (snd q))"
    then obtain q where q: "q \<in> set (rx_match r s c)" and l: "length (fst q) < length s"
      and p: "p \<in> set (rx_match (Star g r) (fst q) (snd q))" by blast
    from 5(1)[OF q] obtain u where "s = u @ fst q" by blast
    moreover from 5(2)[OF q l p] obtain v where "fst q = v @ fst p" by blast
    ultimately show ?thesis by simp
  qed
next
  case (6 n r s c) then show ?case by (cases p) (auto simp: rx_match.simps(6))
next
  case (7 r s c) then show ?case by (cases p) (auto simp: rx_match.simps(7) split: if_splits)
qed

lemma rx_Seq_mem: "p \<in> set (rx_match (Seq a b) s c) \<longleftrightarrow>
   (\<exists>q \<in> set (rx_match a s c). p \<in> set (rx_match b (fst q) (snd q)))"
  by (auto simp: rx_match.simps(3))

lemma rx_lit_mem: "p \<in> set (rx_match (lit w) s c) \<Longrightarrow> s = w @ fst p"
proof (induction w arbitrary: s)
  case Nil then show ?case by (simp add: lit_def rx_match.simps(1))
next
  case (Cons x w)
  from Cons.prems obtain q where q: "q \<in> set (rx_match (chr x) s c)" and p: "p \<in> set (rx_match (lit w) (fst q) (snd q))"
    by (auto simp: lit_def rx_match.simps(3))
  from q have "s = x # fst q" "snd q = c" by (cases s; auto simp: chr_def rx_match.simps(2) split: if_splits)+
  with Cons.IH[of "fst q"] p show ?case by simp
qed

lemma has_marker_app: "has_marker (u @ CHR ''['' # CHR ''['' # v)"
  by (induction u rule: has_marker.induct) auto

lemma has_marker_Cons: "has_marker xs \<Longrightarrow> has_marker (x # xs)"
  by (cases xs) auto

lemma seq3_marker:
  assumes "p \<in> set (rx_match (Seq a (Seq b (Seq (lit (CHR ''['' # CHR ''['' # w)) r))) s c)"
  shows "has_marker s"
proof -
  from assms obtain q1 where q1: "q1 \<in> set (rx_match a s c)"
    and p1: "p \<in> set (rx_match (Seq b (Seq (lit (CHR ''['' # CHR ''['' # w)) r)) (fst q1) (snd q1))"
    unfolding rx_Seq_mem by blast
  from p1 obtain q2 where q2: "q2 \<in> set (rx_match b (fst q1) (snd q1))"
    and p2: "p \<in> set (rx_match (Seq (lit (CHR ''['' # CHR ''['' # w)) r) (fst q2) (snd q2))"
    unfolding rx_Seq_mem by blast
  from p2 obtain q3 where q3: "q3 \<in> set (rx_match (lit (CHR ''['' # CHR ''['' # w)) (fst q2) (snd q2))"
    unfolding rx_Seq_mem by blast
  from rx_suffix[OF q1] obtain u1 where "s = u1 @ fst q1" by blast
  moreover from rx_suffix[OF q2] obtain u2 where "fst q1 = u2 @ fst q2" by blast
  moreover from rx_lit_mem[OF q3] have "fst q2 = (CHR ''['' # CHR ''['' # w) @ fst q3" .
  ultimately have "s = (u1 @ u2) @ CHR ''['' # CHR ''['' # (w @ fst q3)" by simp
  then show ?thesis using has_marker_app by metis
qed

lemma guard_marker: "\<not> has_marker s \<Longrightarrow> match_here (guardRx mk) s = None"
proof (rule ccontr)
  assume n: "\<not> has_marker s" and "match_here (guardRx mk) s \<noteq> None"
  then obtain p where "p \<in> set (rx_match (guardRx mk) s Map.empty)"
    by (auto simp: match_here_def split: list.splits)
  then have "has_marker s"
    unfolding guardRx_def seqs_def foldr.simps o_apply by (rule seq3_marker)
  with n show False by simp
qed

lemma ver_marker: "\<not> has_marker s \<Longrightarrow> match_here sqlVerRx s = None"
proof (rule ccontr)
  assume n: "\<not> has_marker s" and "match_here sqlVerRx s \<noteq> None"
  then obtain p where "p \<in> set (rx_match sqlVerRx s Map.empty)"
    by (auto simp: match_here_def split: list.splits)
  then have "p \<in> set (rx_match (Seq (Group 1 nls) (Seq dashes (Seq (lit ''[['') (seqs (tl (tl (tl [Group 1 nls, dashes, lit ''[['', lit_ci ''version'',
                    NegLook (Seq (lit ''[['') (lit_ci ''version'')),
                    Star True (Cls is_space),
                    Group 2 (Alt (chr CHR ''='')
                            (Alt (Seq (chr CHR ''<'') (opt (chr CHR ''='')))
                            (Alt (Seq (chr CHR ''>'') (opt (chr CHR ''='')))
                                 (lit ''<>'')))),
                    Star True (Cls is_space),
                    opt (Cls (\<lambda>x. x = CHR ''+'' \<or> x = CHR ''-'')),
                    Group 3 (seqs [plus (Cls is_digit), opt (chr CHR ''.''),
                                   Star True (Cls is_digit)]),
                    Star True (Cls is_space), lit '']]'', nls,
                    Group 4 (Star False (Cls (\<lambda>_. True))),
                    dashes, lit ''[['', lit_ci ''version'', lit '']]'',
                    Group 5 nls]))))))) s Map.empty)"
    by (simp add: sqlVerRx_def seqs_def)
  then have "has_marker s" by (rule seq3_marker)
  with n show False by simp
qed

lemma ra_plain: "(\<And>t. \<not> has_marker t \<Longrightarrow> match_here r t = None) \<Longrightarrow> \<not> has_marker s \<Longrightarrow> replace_all r f s st = (s, st)"
proof (induction s)
  case Nil then show ?case by (simp add: replace_all_Nil)
next
  case (Cons x xs)
  then have "\<not> has_marker xs" using has_marker_Cons by blast
  with Cons show ?case by (simp add: replace_all_None)
qed



section \<open>The array pass on a text without collections\<close>

lemma rx_groupfree: "groupfree r \<Longrightarrow> p \<in> set (rx_match r s c) \<Longrightarrow> snd p = c"
proof (induction r s c arbitrary: p rule: rx_match.induct)
  case (1 s c)
  then show ?case by (simp add: rx_match.simps(1))
next
  case (2 P s c)
  then show ?case by (cases s) (auto simp: rx_match.simps(2) split: if_splits)
next
  case (3 a b s c)
  from 3(4) obtain q where q: "q \<in> set (rx_match a s c)"
    and p: "p \<in> set (rx_match b (fst q) (snd q))"
    by (auto simp: rx_match.simps(3))
  from 3(3) have ga: "groupfree a" and gb: "groupfree b" by simp_all
  from 3(1) [OF ga q] have "snd q = c" .
  moreover from 3(2) [OF q gb p] have "snd p = snd q" .
  ultimately show ?case by simp
next
  case (4 a b s c)
  then show ?case by (cases p) (auto simp: rx_match.simps(4))
next
  case (5 g r s c)
  from 5(4) have "p \<in> set (let more = concat (map (\<lambda>p. if length (fst p) < length s
                                    then rx_match (Star g r) (fst p) (snd p) else [])
                             (rx_match r s c))
      in if g then more @ [(s, c)] else (s, c) # more)"
    by (subst (asm) rx_match.simps(5))
  then have "p = (s, c) \<or> (\<exists>q \<in> set (rx_match r s c). length (fst q) < length s \<and>
      p \<in> set (rx_match (Star g r) (fst q) (snd q)))"
    by (auto simp: Let_def split: if_splits)
  then show ?case
  proof
    assume "p = (s, c)"
    then show ?thesis by simp
  next
    assume "\<exists>q \<in> set (rx_match r s c). length (fst q) < length s \<and>
      p \<in> set (rx_match (Star g r) (fst q) (snd q))"
    then obtain q where q: "q \<in> set (rx_match r s c)" and l: "length (fst q) < length s"
      and p: "p \<in> set (rx_match (Star g r) (fst q) (snd q))" by blast
    from 5(3) have gr: "groupfree r" by simp
    from 5(1) [OF gr q] have "snd q = c" .
    moreover from 5(2) [OF q l 5(3) p] have "snd p = snd q" .
    ultimately show ?thesis by simp
  qed
next
  case (6 n r s c)
  then show ?case by simp
next
  case (7 r s c)
  then show ?case by (auto simp: rx_match.simps(7) split: if_splits)
qed

lemma rx_Group_mem:
  assumes "p \<in> set (rx_match (Group n r) s c)" and "groupfree r"
  shows "\<exists>u. s = u @ fst p \<and> snd p = c(n \<mapsto> u)"
proof -
  from assms(1) obtain q where q: "q \<in> set (rx_match r s c)"
    and p: "p = (fst q, (snd q)(n \<mapsto> take (length s - length (fst q)) s))"
    by (auto simp: rx_match.simps(6))
  from rx_suffix [OF q] obtain u where u: "s = u @ fst q" by blast
  from rx_groupfree [OF assms(2) q] have "snd q = c" .
  with p u show ?thesis by simp
qed

text \<open>A match of the array pattern is a colon and a name, and the two groups are the
  text matched.\<close>

lemma sqlArrayRx_match:
  assumes "match_here sqlArrayRx s = Some p"
  shows "s = grp (snd p) 1 @ grp (snd p) 2 @ fst p \<and> grp (snd p) 1 = '':''"
proof -
  let ?R = "Seq (plus (Cls is_alpha)) (Star False (Cls is_digit))"
  from assms have "p \<in> set (rx_match sqlArrayRx s Map.empty)"
    by (auto simp: match_here_def split: list.splits)
  then have "p \<in> set (rx_match (Seq (Group 1 (chr CHR '':'')) (Seq (Group 2 ?R) Eps)) s Map.empty)"
    by (simp add: sqlArrayRx_def seqs_def)
  then obtain q1 where q1: "q1 \<in> set (rx_match (Group 1 (chr CHR '':'')) s Map.empty)"
    and p1: "p \<in> set (rx_match (Seq (Group 2 ?R) Eps) (fst q1) (snd q1))"
    unfolding rx_Seq_mem by blast
  from p1 obtain q2 where q2: "q2 \<in> set (rx_match (Group 2 ?R) (fst q1) (snd q1))"
    and p2: "p \<in> set (rx_match Eps (fst q2) (snd q2))"
    unfolding rx_Seq_mem by blast
  from p2 have pq: "p = q2" by (simp add: rx_match.simps(1))
  have g1: "groupfree (chr CHR '':'')" by (simp add: chr_def)
  have g2: "groupfree ?R" by (simp add: plus_def)
  from rx_Group_mem [OF q1 g1] obtain u1 where u1: "s = u1 @ fst q1" "snd q1 = [1 \<mapsto> u1]"
    by blast
  from rx_Group_mem [OF q2 g2] obtain u2 where u2: "fst q1 = u2 @ fst q2" "snd q2 = (snd q1)(2 \<mapsto> u2)"
    by blast
  from q1 obtain q where q: "q \<in> set (rx_match (chr CHR '':'') s Map.empty)"
    and fq: "fst q1 = fst q"
    by (auto simp: rx_match.simps(6))
  from q have "s = CHR '':'' # fst q"
    by (cases s) (auto simp: rx_chr_Nil rx_chr_Cons split: if_splits)
  with u1 fq have "u1 = '':''" by simp
  with u1 u2 pq show ?thesis by (simp add: grp_def)
qed

lemma sqlArrayRx_progress:
  "match_here sqlArrayRx s = Some p \<Longrightarrow> length (fst p) < length s"
proof -
  assume "match_here sqlArrayRx s = Some p"
  from sqlArrayRx_match [OF this] have "s = '':'' @ grp (snd p) 2 @ fst p" by simp
  then have "length s = Suc (length (grp (snd p) 2) + length (fst p))"
    by (metis append_Cons append_Nil length_Cons length_append)
  then show ?thesis by simp
qed


lemma replace_all_Some:
  "match_here r s = Some p \<Longrightarrow> length (fst p) < length s \<Longrightarrow>
   replace_all r f s st =
     (case f (snd p) st of (rep, st1) \<Rightarrow> apfst ((@) rep) (replace_all r f (fst p) st1))"
proof -
  assume m: "match_here r s = Some p" and l: "length (fst p) < length s"
  obtain rest c where p: "p = (rest, c)" by (cases p)
  obtain rep st1 where f: "f c st = (rep, st1)" by (cases "f c st")
  obtain out st2 where o: "replace_all r f rest st1 = (out, st2)" by (cases "replace_all r f rest st1")
  from m l p f o have "replace_all r f s st = (rep @ out, st2)"
    by (subst replace_all.simps) simp
  with p f o show ?thesis by simp
qed

lemma tokens_acc:
  "snd (replace_all sqlArrayRx (\<lambda>c ks. (grp c 1 @ grp c 2, ks @ [grp c 2])) s acc) =
   acc @ snd (replace_all sqlArrayRx (\<lambda>c ks. (grp c 1 @ grp c 2, ks @ [grp c 2])) s [])"
proof (induction s arbitrary: acc rule: length_induct)
  case (1 s)
  let ?F = "\<lambda>c ks. (grp c 1 @ grp c 2, ks @ [grp c 2 :: string])"
  show ?case
  proof (cases "match_here sqlArrayRx s")
    case None
    show ?thesis
    proof (cases s)
      case Nil
      with None show ?thesis by (simp add: replace_all_Nil)
    next
      case (Cons x xs)
      with None 1 [rule_format, of xs acc] show ?thesis
        by (simp add: replace_all_None)
    qed
  next
    case (Some p)
    from sqlArrayRx_progress [OF Some] have l: "length (fst p) < length s" .
    from 1 [rule_format, OF l, of "acc @ [grp (snd p) 2]"] 1 [rule_format, OF l, of "[grp (snd p) 2]"]
    show ?thesis
      by (simp add: replace_all_Some [OF Some l])
  qed
qed

lemma tokens_Nil: "tokens [] = []"
  by (simp add: tokens_def replace_all_Nil sqlArrayRx_Nil)

lemma tokens_None: "match_here sqlArrayRx (x # xs) = None \<Longrightarrow> tokens (x # xs) = tokens xs"
  by (simp add: tokens_def replace_all_None)

lemma tokens_Some: "match_here sqlArrayRx s = Some p \<Longrightarrow> tokens s = grp (snd p) 2 # tokens (fst p)"
  using tokens_acc [of "fst p" "[grp (snd p) 2]"]
  by (simp add: tokens_def replace_all_Some sqlArrayRx_progress)

lemma sqlArrayRpl_plain:
  assumes "case rplmts of None \<Rightarrow> True | Some b \<Rightarrow> \<not> is_collection (b (grp c 2))"
  shows "sqlArrayRpl c rplmts = (grp c 1 @ grp c 2, rplmts)"
proof (cases rplmts)
  case None
  then show ?thesis by (simp add: sqlArrayRpl_def)
next
  case (Some b)
  with assms have n: "\<not> is_collection (b (grp c 2))" by simp
  show ?thesis
  proof (cases "b (grp c 2)")
    case None
    with Some show ?thesis by (simp add: sqlArrayRpl_def Let_def)
  next
    case (Some v)
    with n have "v = JArr [] \<or> (\<forall>vals. v \<noteq> JArr vals)"
      by (cases v) (auto simp: is_collection_def split: list.splits)
    with Some \<open>rplmts = Some b\<close> show ?thesis
      by (cases v) (auto simp: sqlArrayRpl_def Let_def)
  qed
qed

lemma replace_all_no_collection:
  "no_collection s rplmts \<Longrightarrow> replace_all sqlArrayRx sqlArrayRpl s rplmts = (s, rplmts)"
proof (induction s rule: length_induct)
  case (1 s)
  show ?case
  proof (cases "match_here sqlArrayRx s")
    case None
    show ?thesis
    proof (cases s)
      case Nil
      with None show ?thesis by (simp add: replace_all_Nil)
    next
      case (Cons x xs)
      with None 1(2) have "no_collection xs rplmts"
        by (simp add: no_collection_def tokens_None split: option.splits)
      with 1(1) Cons have "replace_all sqlArrayRx sqlArrayRpl xs rplmts = (xs, rplmts)" by simp
      with None Cons show ?thesis by (simp add: replace_all_None)
    qed
  next
    case (Some p)
    from sqlArrayRx_progress [OF Some] have l: "length (fst p) < length s" .
    from sqlArrayRx_match [OF Some] have m: "s = grp (snd p) 1 @ grp (snd p) 2 @ fst p" by simp
    from 1(2) have k: "case rplmts of None \<Rightarrow> True | Some b \<Rightarrow> \<not> is_collection (b (grp (snd p) 2))"
      and r: "no_collection (fst p) rplmts"
      by (auto simp: no_collection_def tokens_Some [OF Some] split: option.splits)
    from 1(1) l r have "replace_all sqlArrayRx sqlArrayRpl (fst p) rplmts = (fst p, rplmts)" by simp
    then have "replace_all sqlArrayRx sqlArrayRpl s rplmts = (grp (snd p) 1 @ grp (snd p) 2 @ fst p, rplmts)"
      by (simp add: replace_all_Some [OF Some l] sqlArrayRpl_plain [OF k])
    with m show ?thesis by simp
  qed
qed

lemma replace_plain:
  "(\<And>t. \<not> has_marker t \<Longrightarrow> match_here r t = None) \<Longrightarrow> \<not> has_marker s \<Longrightarrow> replace r f s = s"
  by (simp add: replace_def ra_plain)

lemma frag_str_plain:
  assumes "\<not> has_marker s" and "no_collection s rplmts"
  shows "frag_str dialect version s keys rplmts = (s, rplmts)"
  using assms
  by (simp add: frag_str_def replace_all_no_collection replace_plain guard_marker ver_marker
        sqlDiaRx_def sqlFragRx_def)

lemma frag_plain:
  assumes "\<not> has_marker s" and "no_collection s rplmts"
  shows "frag dialect version (JStr s) keys rplmts = Inr (JStr s, rplmts)"
  using frag_str_plain [OF assms] by (simp add: frag_def)

lemmas tokens_eval = no_collection_def is_collection_def tokens_def


section \<open>Evaluating the examples\<close>

lemmas ex_defs = ex_host_def ex_driver_def ex_failing_driver_def ex_conn_def ex_sqls_def
  ex_opts_def new_SQLS_def new_DBS_def ex_filesA_def ex_filesB_def ex_manager_def

lemmas fs_eval = SQLS_init_def prepared_def readSqlFile_def crud_of_def basename_def
  toUpperCase_def CRUD_TYPES_def sanitize_file_def sanitize_dir_def is_alnum_def node_prop_def

lemmas ev_cong = rx_match_cong cm_cong replace_all_cong match_here_cong


section \<open>Scanning over plain text\<close>

lemma replace_all_skip_sqlArrayRx:
  "CHR '':'' \<notin> set u \<Longrightarrow>
   replace_all sqlArrayRx f (u @ w) st = apfst ((@) u) (replace_all sqlArrayRx f w st)"
proof (induction u)
  case Nil
  then show ?case by (simp add: apfst_def map_prod_def)
next
  case (Cons x u)
  then have "x \<noteq> CHR '':''" by auto
  then have "match_here sqlArrayRx (x # u @ w) = None"
    by (simp add: sqlArrayRx_first)
  with Cons show ?case
    by (simp add: replace_all_None apfst_def map_prod_def split: prod.splits)
qed





lemma star_cls_head:
  "\<exists>T. rx_match (Star True (Cls P)) s c = (dropWhile P s, c) # T"
proof (induction s)
  case Nil
  then show ?case by (simp add: rx_Star_Cls_Nil)
next
  case (Cons x xs)
  then obtain T where "rx_match (Star True (Cls P)) xs c = (dropWhile P xs, c) # T" by blast
  then show ?case by (simp add: rx_Star_Cls_Cons)
qed

lemma take_dropWhile: "take (length s - length (dropWhile P s)) s = takeWhile P s"
  by (induction s) (auto simp: Suc_diff_le length_dropWhile_le)

text \<open>The match of the array pattern at the start of a text: a colon and the letters
  after it, at least one.\<close>

lemma sqlArrayRx_Cons:
  "match_here sqlArrayRx (x # s) =
     (if x = CHR '':'' \<and> takeWhile is_alpha s \<noteq> []
      then Some (dropWhile is_alpha s, [1 \<mapsto> '':'', 2 \<mapsto> takeWhile is_alpha s])
      else None)"
proof (cases "x = CHR '':''")
  case False
  then show ?thesis by (simp add: sqlArrayRx_first)
next
  case True
  show ?thesis
  proof (cases s)
    case Nil
    with True show ?thesis by (simp add: rx_eval cong: rx_match_cong cm_cong)
  next
    case (Cons y ys)
    show ?thesis
    proof (cases "is_alpha y")
      case False
      with True Cons show ?thesis
        by (simp add: match_here_def rx_sqlArrayRx rx_seqs_Cons rx_seqs_Nil rx_Group rx_chr_Cons
              rx_Seq rx_plus rx_Cls_Cons grp_set_def)
    next
      case a: True
      obtain T where T: "rx_match (Star True (Cls is_alpha)) ys [1 \<mapsto> '':''] =
          (dropWhile is_alpha ys, [1 \<mapsto> '':'']) # T"
        using star_cls_head by blast
      obtain U where U: "rx_match (Star False (Cls is_digit)) (dropWhile is_alpha ys) [1 \<mapsto> '':''] =
          (dropWhile is_alpha ys, [1 \<mapsto> '':'']) # U"
        by (cases "dropWhile is_alpha ys") (simp_all add: rx_Star_Cls_Nil rx_Star_Cls_Cons)
      have t: "take (Suc (length ys) - length (dropWhile is_alpha ys)) (y # ys) = y # takeWhile is_alpha ys"
        using take_dropWhile [of "y # ys" is_alpha] a by simp
      from True Cons a T U t show ?thesis
        by (simp add: match_here_def rx_sqlArrayRx rx_seqs_Cons rx_seqs_Nil rx_Group rx_chr_Cons
              rx_Seq rx_plus rx_Cls_Cons grp_set_def)
    qed
  qed
qed


lemma alpha_append:
  assumes "case w of [] \<Rightarrow> True | y # _ \<Rightarrow> \<not> is_alpha y"
  shows "takeWhile is_alpha (u @ w) = takeWhile is_alpha u \<and>
         dropWhile is_alpha (u @ w) = dropWhile is_alpha u @ w"
  using assms by (induction u) (auto split: list.splits)

text \<open>The array pass leaves a text without collections as it is, whatever follows it,
  when what follows does not start with a letter.\<close>

lemma replace_all_sqlArrayRx_prefix:
  assumes "no_collection pre rplmts" and "case w of [] \<Rightarrow> True | y # _ \<Rightarrow> \<not> is_alpha y"
  shows "replace_all sqlArrayRx sqlArrayRpl (pre @ w) rplmts =
           apfst ((@) pre) (replace_all sqlArrayRx sqlArrayRpl w rplmts)"
  using assms(1)
proof (induction pre rule: length_induct)
  case (1 pre)
  show ?case
  proof (cases pre)
    case Nil
    then show ?thesis by (simp add: apfst_def map_prod_def)
  next
    case (Cons x u)
    note aa = alpha_append [OF assms(2), of u]
    show ?thesis
    proof (cases "x = CHR '':'' \<and> takeWhile is_alpha u \<noteq> []")
      case False
      then have n: "match_here sqlArrayRx (x # u) = None"
        and n': "match_here sqlArrayRx (x # u @ w) = None"
        using aa by (auto simp: sqlArrayRx_Cons)
      from 1(2) n have "no_collection u rplmts"
        by (simp add: Cons no_collection_def tokens_None split: option.splits)
      with 1(1) Cons have "replace_all sqlArrayRx sqlArrayRpl (u @ w) rplmts =
          apfst ((@) u) (replace_all sqlArrayRx sqlArrayRpl w rplmts)" by simp
      with n' Cons show ?thesis
        by (simp add: replace_all_None apfst_def map_prod_def split: prod.splits)
    next
      case True
      let ?k = "takeWhile is_alpha u" and ?d = "dropWhile is_alpha u"
      let ?c = "[1 \<mapsto> '':'', 2 \<mapsto> ?k]"
      from True have m: "match_here sqlArrayRx (x # u) = Some (?d, ?c)"
        and m': "match_here sqlArrayRx (x # u @ w) = Some (?d @ w, ?c)"
        using aa by (simp_all add: sqlArrayRx_Cons)
      have g: "grp ?c 1 = '':''" "grp ?c 2 = ?k" by (simp_all add: grp_def)
      from 1(2) have k: "case rplmts of None \<Rightarrow> True | Some b \<Rightarrow> \<not> is_collection (b (grp ?c 2))"
        and r: "no_collection ?d rplmts"
        using tokens_Some [OF m]
        by (auto simp: Cons no_collection_def split: option.splits)
      have "length ?d < length pre"
        using Cons length_dropWhile_le [of is_alpha u] by simp
      with 1(1) r have ih: "replace_all sqlArrayRx sqlArrayRpl (?d @ w) rplmts =
          apfst ((@) ?d) (replace_all sqlArrayRx sqlArrayRpl w rplmts)" by simp
      have l: "length (fst (?d @ w, ?c)) < length (x # u @ w)"
        using length_dropWhile_le [of is_alpha u] by simp
      have "replace_all sqlArrayRx sqlArrayRpl (x # u @ w) rplmts =
          apfst ((@) ('':'' @ ?k @ ?d)) (replace_all sqlArrayRx sqlArrayRpl w rplmts)"
        using replace_all_Some [OF m' l, of sqlArrayRpl rplmts] sqlArrayRpl_plain [OF k] ih g
        by (simp add: apfst_def map_prod_def split: prod.splits)
      with True Cons show ?thesis by simp
    qed
  qed
qed



section \<open>A version guard in plain text\<close>











section \<open>The bind tokens of a text\<close>

lemma is_alpha_colon: "is_alpha x \<Longrightarrow> x \<noteq> CHR '':''"
  by (auto simp: rx_eval)

lemma spec_tokens_skip: "CHR '':'' \<notin> set u \<Longrightarrow> spec_tokens (u @ w) = spec_tokens w"
  by (induction u) auto

lemma tokens_skip: "CHR '':'' \<notin> set u \<Longrightarrow> tokens (u @ w) = tokens w"
  by (simp add: tokens_def replace_all_skip_sqlArrayRx)

lemma tokens_spec_tokens: "tokens s = map fst (spec_tokens s)"
proof (induction s rule: length_induct)
  case (1 s)
  show ?case
  proof (cases s)
    case Nil
    then show ?thesis by (simp add: tokens_Nil)
  next
    case (Cons x u)
    have nc: "CHR '':'' \<notin> set (takeWhile is_alpha u)"
      using is_alpha_colon by (auto dest: set_takeWhileD)
    have u: "u = takeWhile is_alpha u @ dropWhile is_alpha u" by simp
    have "length (dropWhile is_alpha u) < length s"
      using Cons length_dropWhile_le [of is_alpha u] by simp
    with 1 have ih: "tokens (dropWhile is_alpha u) = map fst (spec_tokens (dropWhile is_alpha u))"
      by blast
    have ih': "tokens u = map fst (spec_tokens u)"
      using 1 Cons by simp
    have sk: "spec_tokens u = spec_tokens (dropWhile is_alpha u)"
      using spec_tokens_skip [OF nc, of "dropWhile is_alpha u"] by simp
    show ?thesis
    proof (cases "x = CHR '':'' \<and> takeWhile is_alpha u \<noteq> []")
      case True
      then have m: "match_here sqlArrayRx (x # u) =
          Some (dropWhile is_alpha u, [1 \<mapsto> '':'', 2 \<mapsto> takeWhile is_alpha u])"
        by (simp add: sqlArrayRx_Cons)
      from tokens_Some [OF m] True ih sk Cons show ?thesis
        by (simp add: grp_def)
    next
      case False
      then have m: "match_here sqlArrayRx (x # u) = None"
        by (simp add: sqlArrayRx_Cons)
      from tokens_None [OF m] False ih' Cons show ?thesis
        by auto
    qed
  qed
qed

lemma no_collection_named: "no_collection_named s rplmts \<Longrightarrow> no_collection s rplmts"
  by (cases rplmts) (auto simp: no_collection_named_def no_collection_def tokens_spec_tokens list_all_iff)

lemmas spec_tokens_eval = no_collection_named_def is_collection_def spec_tokens.simps



section \<open>Calls of a prepared function\<close>

text \<open>
  C10. A prepared function called without options fails and submits nothing, also when
  its file has a CRUD prefix: the type is read from the missing options.
\<close>

theorem execSqlPublic_without_opts:
  "execSqlPublic h S st None frags =
     (Inl (if st_crud st = None then ReferenceError ''OPERATION_TYPES is not defined''
           else if sqls_stms S (st_name st) = None
           then TypeError ''Cannot read property of undefined''
           else TypeError ''Cannot read property type of undefined''), S)"
  by (simp add: execSqlPublic_def merge_binds_def split: option.splits)

theorem execSqlPublic_without_opts_witness:
  "(case prepared ex_host (ex_sqls ''connA'' ex_driver ex_filesA) ''oracle_connA_read_users''
           ''/app/connA/read.users.sql'' ''sql'' (Some ''SELECT * FROM users'') of
      Inl e \<Rightarrow> False
    | Inr (st, S) \<Rightarrow>
        st_crud st = Some ''READ'' \<and>
        execSqlPublic ex_host S st None None =
          (Inl (TypeError ''Cannot read property type of undefined''), S))"
proof -
  have "prepared ex_host (ex_sqls ''connA'' ex_driver ex_filesA) ''oracle_connA_read_users''
           ''/app/connA/read.users.sql'' ''sql'' (Some ''SELECT * FROM users'') =
        Inr (\<lparr> st_name = ''oracle_connA_read_users'', st_fpth = ''/app/connA/read.users.sql'',
               st_ext = ''sql'', st_crud = Some ''READ'' \<rparr>,
             (ex_sqls ''connA'' ex_driver ex_filesA)
               \<lparr> sqls_stms := [''oracle_connA_read_users'' \<mapsto>
                                 [''sql'' \<mapsto> StaticSql (JStr ''SELECT * FROM users'')]],
                 sqls_numOfPreparedStmts := 1 \<rparr>)"
    by (simp add: ex_defs fs_eval rx_eval)
  then show ?thesis
    by (simp add: execSqlPublic_without_opts)
qed

text \<open>
  C4. The statement of a file without CRUD prefix, called with options that have no
  type: the call is rejected and nothing is submitted, but the error is the reference
  error of the undeclared \<^verbatim>\<open>OPERATION_TYPES\<close>, not the message that names the types.
\<close>

theorem execSqlPublic_type_required:
  "(case prepared ex_host (ex_sqls ''connA'' ex_driver ex_filesA) ''oracle_connA_users''
           ''/app/connA/users.sql'' ''sql'' (Some ''SELECT * FROM users'') of
      Inl e \<Rightarrow> False
    | Inr (st, S) \<Rightarrow>
        st_crud st = None \<and>
        execSqlPublic ex_host S st (Some ex_opts) None =
          (Inl (ReferenceError ''OPERATION_TYPES is not defined''), S) \<and>
        fst (execSqlPublic ex_host S st (Some (ex_opts\<lparr> o_type := JStr ''READ'' \<rparr>)) None) =
          Inr (JArr []))"
  by (simp add: ex_defs fs_eval rx_eval frag_eval execSqlPublic_def merge_binds_def
        default_binds_def genExecSqlFromFileFunction_def exec_def cong: ev_cong)

lemma exec_returnErrors:
  assumes "frag (dbs_dialect d) (dbs_version d) sql frags (eo_binds opts) = Inr (sqlf, b)"
    and "dbx_exec dbx sqlf (opts\<lparr> eo_binds := b \<rparr>)
           (dbs_pending d + (if eo_type opts = JStr ''READ'' then 0 else 1)) frags = Inl err"
  shows "fst (exec dbx d fpth sql opts frags) =
           (if truthy (eo_returnErrors opts) then Inr (JErr err) else Inl err)"
  using assms by (simp add: exec_def Let_def)

text \<open>
  C2. \<^verbatim>\<open>DBS.exec\<close> returns the driver's error when its options have
  \<^verbatim>\<open>returnErrors\<close>, but the options a prepared function builds for it never have: a call
  with \<^verbatim>\<open>returnErrors: true\<close> on a failing driver raises the error.
\<close>

theorem execSqlPublic_returnErrors:
  "(case prepared ex_host (ex_sqls ''connA'' ex_failing_driver ex_filesA)
           ''oracle_connA_read_users'' ''/app/connA/read.users.sql'' ''sql''
           (Some ''SELECT * FROM users'') of
      Inl e \<Rightarrow> False
    | Inr (st, S) \<Rightarrow>
        fst (execSqlPublic ex_host S st (Some (ex_opts\<lparr> o_returnErrors := JBool True \<rparr>)) None) =
          Inl (DriverError ''ORA-00942''))"
  by (simp add: ex_defs fs_eval rx_eval frag_eval execSqlPublic_def merge_binds_def
        default_binds_def genExecSqlFromFileFunction_def exec_def cong: ev_cong)


section \<open>Lifecycle operations\<close>

text \<open>
  C3. A commit with a per-connection override of \<^verbatim>\<open>executeInSeries\<close>: the lookup of
  the override raises a reference error, no task is queued or run, and no result map is
  produced. Without \<^verbatim>\<open>connections\<close> in the options the same commit completes.
\<close>

theorem operation_override:
  "Manager_commit ex_host ex_manager
     (Some \<lparr> oo_connections = JObj [(''connA'', JObj [(''executeInSeries'', JBool True)])],
             oo_executeInSeries = JUndefined \<rparr>) [] =
     (Inl (ReferenceError ''name is not defined''), ex_manager) \<and>
   fst (Manager_commit ex_host ex_manager
     (Some \<lparr> oo_connections = JUndefined, oo_executeInSeries = JBool True \<rparr>) []) =
     Inr [(''connA'', JUndefined), (''connB'', JUndefined)]"
  by (simp add: Manager_commit_def operation_def queue_def ex_defs SQLS_commit_def)








section \<open>The bind set of a call\<close>

lemma default_binds_foldl:
  "foldl (\<lambda>b (i, v). if P i then b(i \<mapsto> v) else b) b0 cb k =
     (case map_of (rev cb) k of None \<Rightarrow> b0 k | Some v \<Rightarrow> if P k then Some v else b0 k)"
proof (induction cb arbitrary: b0)
  case Nil
  then show ?case by simp
next
  case (Cons p cb)
  obtain i v where p: "p = (i, v)" by (cases p)
  show ?case
    using Cons.IH [of "if P i then b0(i \<mapsto> v) else b0"]
    by (auto simp: p map_add_def split: option.splits)
qed

lemma default_binds_lookup:
  "default_binds c (Some co) k =
     (if k \<in> fst ` set (case o_binds co of None \<Rightarrow> [] | Some ob \<Rightarrow> ob) then None
      else obj_get (case conn_binds c of None \<Rightarrow> [] | Some cb \<Rightarrow> cb) k)"
proof (cases "conn_binds c")
  case None
  then show ?thesis by (simp add: default_binds_def obj_get_def)
next
  case (Some cb)
  show ?thesis
    using default_binds_foldl [of "\<lambda>i. case o_binds co of None \<Rightarrow> True | Some ob \<Rightarrow> i \<notin> fst ` set ob"
        Map.empty cb k] Some
    by (auto simp: default_binds_def obj_get_def split: option.splits)
qed

lemma call_binds_spec:
  assumes "\<forall>ms. h_iso h ms \<noteq> []"
  shows "call_binds h ob b =
     (if list_ex (\<lambda>p. snd p = JDate None) ob then Inl (RangeError ''Invalid time value'')
      else Inr (\<lambda>k. case obj_get ob k of None \<Rightarrow> b k | Some v \<Rightarrow> Some (iso_text h v)))"
proof (induction ob arbitrary: b)
  case Nil
  then show ?case by (simp add: obj_get_def)
next
  case (Cons p ob)
  obtain i v where p: "p = (i, v)" by (cases p)
  show ?case
  proof (cases "v = JDate None")
    case True
    then show ?thesis by (simp add: p)
  next
    case False
    then have cv: "convert_date h v = Inr (iso_text h v)"
      using assms by (cases "(h, v)" rule: convert_date.cases) (auto simp: iso_text_def)
    have "(\<lambda>k. case obj_get ob k of None \<Rightarrow> (b(i \<mapsto> iso_text h v)) k | Some v \<Rightarrow> Some (iso_text h v)) =
          (\<lambda>k. case obj_get ((i, v) # ob) k of None \<Rightarrow> b k | Some v \<Rightarrow> Some (iso_text h v))"
      by (rule ext) (auto simp: obj_get_def map_add_def split: option.splits)
    with False cv show ?thesis
      by (simp add: p Cons.IH)
  qed
qed

lemma merge_binds_spec:
  assumes "\<forall>ms. h_iso h ms \<noteq> []"
  shows "merge_binds h c (Some co) =
     (if invalid_date co then Inl (RangeError ''Invalid time value'') else Inr (spec_binds h c co))"
proof (cases "o_binds co")
  case None
  have "default_binds c (Some co) = spec_binds h c co"
    by (rule ext) (simp add: default_binds_lookup spec_binds_def None obj_get_def)
  with None show ?thesis by (simp add: merge_binds_def invalid_date_def)
next
  case (Some ob)
  have "(\<lambda>k. case obj_get ob k of None \<Rightarrow> default_binds c (Some co) k | Some v \<Rightarrow> Some (iso_text h v)) =
        spec_binds h c co"
  proof (rule ext)
    fix k
    have "obj_get ob k = None \<longleftrightarrow> k \<notin> fst ` set ob"
      by (simp add: obj_get_def map_of_eq_None_iff)
    then show "(case obj_get ob k of None \<Rightarrow> default_binds c (Some co) k | Some v \<Rightarrow> Some (iso_text h v)) =
        spec_binds h c co k"
      by (auto simp: default_binds_lookup spec_binds_def Some split: option.splits)
  qed
  with Some show ?thesis
    by (simp add: merge_binds_def invalid_date_def call_binds_spec [OF assms])
qed

text \<open>
  C8, as amended. A call of a prepared function with options, where the ISO text of a
  date is never empty. When the type is known and no bind of the call is an invalid
  date, the bind set handed to the execution (\<^verbatim>\<open>DBS.exec\<close>, which resolves the
  statement with it and submits both to the driver) is the connection's default binds
  merged with the binds of the call: a bind of the call overrides the default of the same
  name and a date among the binds of the call is replaced by its ISO text, while a
  default that the call does not override is taken as it is, a date included. A call
  with an invalid date among its binds is rejected with a range error, and nothing is
  executed.
\<close>

theorem execSqlPublic_binds:
  assumes "\<forall>ms. h_iso h ms \<noteq> []"
  shows "execSqlPublic h S st (Some co) frags =
     (if st_crud st = None \<and> \<not> truthy (o_type co)
      then (Inl (ReferenceError ''OPERATION_TYPES is not defined''), S)
      else if invalid_date co then (Inl (RangeError ''Invalid time value''), S)
      else case stmt_sql h S st of
             Inl e \<Rightarrow> (Inl e, S)
           | Inr (sql, S0) \<Rightarrow>
               (case exec (sqls_dbx S0) (sqls_dbs S0) (st_fpth st) sql
                       \<lparr> eo_type = (if truthy (o_type co) then o_type co
                                    else (case st_crud st of None \<Rightarrow> JNull | Some t \<Rightarrow> JStr t)),
                         eo_binds = Some (spec_binds h (sqls_conn S) co),
                         eo_returnErrors = JUndefined \<rparr> frags of
                  (r, d) \<Rightarrow> (r, S0\<lparr> sqls_dbs := d \<rparr>)))"
  by (simp add: execSqlPublic_def merge_binds_spec [OF assms] stmt_sql_def
        genExecSqlFromFileFunction_def Let_def
      split: option.splits source.splits sum.splits prod.splits)

text \<open>
  C8 as stated fails for a date among the connection's defaults: it is submitted to the
  driver as a date.
\<close>

theorem execSqlPublic_binds_counterexample:
  "(case prepared ex_host ex_sqls_since ''oracle_connA_read_users''
           ''/app/connA/read.users.sql'' ''sql'' (Some ''SELECT * FROM users'') of
      Inl e \<Rightarrow> False
    | Inr (st, S) \<Rightarrow>
        (case dbs_calls (sqls_dbs (snd (execSqlPublic ex_host S st
                 (Some (ex_opts\<lparr> o_binds := Some [(''n'', JNum 5)] \<rparr>)) None))) of
           [(sql, eo, pending, frags)] \<Rightarrow>
             (case eo_binds eo of
                None \<Rightarrow> False
              | Some b \<Rightarrow> b ''since'' = Some (JDate (Some 0)) \<and> b ''n'' = Some (JNum 5))
         | _ \<Rightarrow> False))"
  by (simp add: ex_sqls_since_def ex_conn_since_def ex_defs fs_eval rx_eval frag_eval
        execSqlPublic_def merge_binds_def default_binds_def genExecSqlFromFileFunction_def
        exec_def cong: ev_cong)

theorem execSqlPublic_binds_witness:
  "(\<forall>ms. h_iso ex_host ms \<noteq> []) \<and>
   (case prepared ex_host ex_sqls_since ''oracle_connA_read_users''
           ''/app/connA/read.users.sql'' ''sql'' (Some ''SELECT * FROM users'') of
      Inl e \<Rightarrow> False
    | Inr (st, S) \<Rightarrow>
        (case dbs_calls (sqls_dbs (snd (execSqlPublic ex_host S st
                 (Some (ex_opts\<lparr> o_binds := Some [(''until'', JDate (Some 0)), (''n'', JNum 5)] \<rparr>))
                 None))) of
           [(sql, eo, pending, frags)] \<Rightarrow>
             (case eo_binds eo of
                None \<Rightarrow> False
              | Some b \<Rightarrow> b ''until'' = Some (JStr ''1970-01-01T00:00:00.000Z'') \<and>
                          b ''n'' = Some (JNum 5) \<and> b ''since'' = Some (JDate (Some 0)))
         | _ \<Rightarrow> False) \<and>
        execSqlPublic ex_host S st
            (Some (ex_opts\<lparr> o_binds := Some [(''n'', JNum 5), (''until'', JDate None)] \<rparr>)) None =
          (Inl (RangeError ''Invalid time value''), S))"
proof -
  let ?st = "\<lparr> st_name = ''oracle_connA_read_users'', st_fpth = ''/app/connA/read.users.sql'',
               st_ext = ''sql'', st_crud = Some ''READ'' \<rparr>"
  let ?S = "ex_sqls_since
               \<lparr> sqls_stms := [''oracle_connA_read_users'' \<mapsto>
                                 [''sql'' \<mapsto> StaticSql (JStr ''SELECT * FROM users'')]],
                 sqls_numOfPreparedStmts := 1 \<rparr>"
  have h: "\<forall>ms. h_iso ex_host ms \<noteq> []"
    by (simp add: ex_host_def)
  have p: "prepared ex_host ex_sqls_since ''oracle_connA_read_users''
           ''/app/connA/read.users.sql'' ''sql'' (Some ''SELECT * FROM users'') = Inr (?st, ?S)"
    by (simp add: ex_sqls_since_def ex_conn_since_def ex_defs fs_eval rx_eval)
  note t = execSqlPublic_binds [OF h, of ?S ?st _ None]
  show ?thesis
    apply (simp only: p sum.case prod.case)
    apply (simp only: t)
    apply (simp add: h invalid_date_def spec_binds_def obj_get_def iso_text_def stmt_sql_def
          exec_def ex_sqls_since_def ex_conn_since_def ex_defs rx_eval frag_eval cong: ev_cong)
    done
qed

section \<open>Template resolution\<close>

text \<open>
  C9, as amended. On a text without guard markers in which no bind token, a colon,
  letters and optional digits, names a collection with an element in the bind set,
  neither by its name nor by the letters of its name alone, \<^verbatim>\<open>frag\<close> gives the text and
  the bind set back unchanged.
\<close>

theorem frag_identity:
  assumes "\<not> has_marker s" and "no_collection_named s rplmts"
  shows "frag dialect version (JStr s) keys rplmts = Inr (JStr s, rplmts)"
  using assms(1) no_collection_named [OF assms(2)] by (rule frag_plain)

theorem frag_identity_witness:
  "\<not> has_marker ''SELECT * FROM users WHERE id = :id AND org = :org1'' \<and>
   no_collection_named ''SELECT * FROM users WHERE id = :id AND org = :org1''
     (Some [''id'' \<mapsto> JNum 7, ''org1'' \<mapsto> JStr ''a'']) \<and>
   frag ''oracle'' 2 (JStr ''SELECT * FROM users WHERE id = :id AND org = :org1'') None
       (Some [''id'' \<mapsto> JNum 7, ''org1'' \<mapsto> JStr ''a'']) =
     Inr (JStr ''SELECT * FROM users WHERE id = :id AND org = :org1'',
          Some [''id'' \<mapsto> JNum 7, ''org1'' \<mapsto> JStr ''a''])"
proof -
  have m: "\<not> has_marker ''SELECT * FROM users WHERE id = :id AND org = :org1''"
    by simp
  have n: "no_collection_named ''SELECT * FROM users WHERE id = :id AND org = :org1''
     (Some [''id'' \<mapsto> JNum 7, ''org1'' \<mapsto> JStr ''a''])"
    by (simp add: spec_tokens_eval rx_eval)
  from frag_identity [OF m n] m n show ?thesis by simp
qed

text \<open>
  C9 as stated fails on a text without guard markers whose bind token names a
  collection: the token is expanded and the bind set extended. The pattern of the array
  pass takes the letters of a token only, so a token whose letters alone name a
  collection is expanded too, with the digits left behind the last sibling, and the
  bind of the first sibling's name is overwritten.
\<close>

theorem frag_identity_counterexample:
  "\<not> has_marker ''WHERE id IN (:ids)'' \<and>
   (case frag ''oracle'' 2 (JStr ''WHERE id IN (:ids)'') None
           (Some [''ids'' \<mapsto> JArr [JNum 10, JNum 20, JNum 30]]) of
      Inr (JStr t, Some b) \<Rightarrow>
        t = ''WHERE id IN (:ids, :ids1, :ids2)'' \<and> b ''ids'' = Some (JNum 10) \<and>
        b ''ids1'' = Some (JNum 20) \<and> b ''ids2'' = Some (JNum 30)
    | _ \<Rightarrow> False) \<and>
   \<not> has_marker ''WHERE id = :ids1'' \<and>
   spec_tokens ''WHERE id = :ids1'' = [(''ids'', ''1'')] \<and>
   (case frag ''oracle'' 2 (JStr ''WHERE id = :ids1'') None
           (Some [''ids'' \<mapsto> JArr [JNum 10, JNum 20], ''ids1'' \<mapsto> JNum 5]) of
      Inr (JStr t, Some b) \<Rightarrow>
        t = ''WHERE id = :ids, :ids11'' \<and> b ''ids'' = Some (JNum 10) \<and> b ''ids1'' = Some (JNum 20)
    | _ \<Rightarrow> False)"
  by (simp add: frag_eval rx_eval cong: ev_cong)





text \<open>
  C7. A bind set with a collection of three values for \<^verbatim>\<open>ids\<close>, and a text with the
  token \<^verbatim>\<open>:ids\<close> where no bind token before it names a collection, none after it names a
  collection of the bind set as the expansion leaves it, and no guard marker occurs: the
  token becomes \<^verbatim>\<open>:ids, :ids1, :ids2\<close>, and the three names are bound to the three values in
  order.
\<close>

theorem frag_array_expansion:
  assumes "b ''ids'' = Some (JArr [v0, v1, v2])"
    and "no_collection pre (Some b)"
    and "no_collection post (Some (b(''ids'' \<mapsto> v0, ''ids1'' \<mapsto> v1, ''ids2'' \<mapsto> v2)))"
    and "case post of [] \<Rightarrow> True | x # _ \<Rightarrow> \<not> is_alpha x"
    and "\<not> has_marker (pre @ '':ids, :ids1, :ids2'' @ post)"
  shows "frag dialect version (JStr (pre @ '':ids'' @ post)) keys (Some b) =
           Inr (JStr (pre @ '':ids, :ids1, :ids2'' @ post),
                Some (b(''ids'' \<mapsto> v0, ''ids1'' \<mapsto> v1, ''ids2'' \<mapsto> v2)))"
proof -
  let ?b' = "b(''ids'' \<mapsto> v0, ''ids1'' \<mapsto> v1, ''ids2'' \<mapsto> v2)"
  from assms(4) have tk: "takeWhile is_alpha (''ids'' @ post) = ''ids''"
    and dr: "dropWhile is_alpha (''ids'' @ post) = post"
    by (cases post; simp add: rx_eval)+
  then have m: "match_here sqlArrayRx ('':ids'' @ post) = Some (post, [1 \<mapsto> '':'', 2 \<mapsto> ''ids''])"
    using sqlArrayRx_Cons [of "CHR '':''" "''ids'' @ post"] by simp
  have rpl: "sqlArrayRpl [1 \<mapsto> '':'', 2 \<mapsto> ''ids''] (Some b) = ('':ids, :ids1, :ids2'', Some ?b')"
    using assms(1) by (simp add: sqlArrayRpl_def grp_def idx_def string_of_nat.simps Let_def)
  have "replace_all sqlArrayRx sqlArrayRpl ('':ids'' @ post) (Some b) =
          ('':ids, :ids1, :ids2'' @ post, Some ?b')"
    using replace_all_Some [OF m, of sqlArrayRpl "Some b"] rpl
      replace_all_no_collection [OF assms(3)]
    by simp
  then have arr: "replace_all sqlArrayRx sqlArrayRpl (pre @ '':ids'' @ post) (Some b) =
          (pre @ '':ids, :ids1, :ids2'' @ post, Some ?b')"
    using replace_all_sqlArrayRx_prefix [OF assms(2), of "'':ids'' @ post"]
    by (simp add: rx_eval)
  have "frag_str dialect version (pre @ '':ids'' @ post) keys (Some b) =
          (pre @ '':ids, :ids1, :ids2'' @ post, Some ?b')"
    using arr assms(5)
    by (simp add: frag_str_def replace_plain guard_marker ver_marker sqlDiaRx_def sqlFragRx_def)
  then show ?thesis
    by (simp add: frag_def)
qed

theorem frag_array_expansion_witness:
  "frag ''oracle'' 2 (JStr ''SELECT * FROM users WHERE org = :org AND id IN (:ids)'') None
        (Some [''org'' \<mapsto> JNum 1, ''ids'' \<mapsto> JArr [JNum 10, JNum 20, JNum 30]]) =
     Inr (JStr ''SELECT * FROM users WHERE org = :org AND id IN (:ids, :ids1, :ids2)'',
          Some [''org'' \<mapsto> JNum 1, ''ids'' \<mapsto> JNum 10, ''ids1'' \<mapsto> JNum 20, ''ids2'' \<mapsto> JNum 30])"
proof -
  let ?b = "[''org'' \<mapsto> JNum 1, ''ids'' \<mapsto> JArr [JNum 10, JNum 20, JNum 30]]"
  have 1: "?b ''ids'' = Some (JArr [JNum 10, JNum 20, JNum 30])" by simp
  have 2: "no_collection ''SELECT * FROM users WHERE org = :org AND id IN ('' (Some ?b)"
    by (simp add: tokens_eval frag_eval rx_eval cong: ev_cong)
  have 3: "no_collection '')''
      (Some (?b(''ids'' \<mapsto> JNum 10, ''ids1'' \<mapsto> JNum 20, ''ids2'' \<mapsto> JNum 30)))"
    by (simp add: tokens_eval frag_eval rx_eval cong: ev_cong)
  have 4: "case '')'' of [] \<Rightarrow> True | x # _ \<Rightarrow> \<not> is_alpha x"
    by (simp add: rx_eval)
  have 5: "\<not> has_marker (''SELECT * FROM users WHERE org = :org AND id IN ('' @
      '':ids, :ids1, :ids2'' @ '')'')"
    by simp
  from frag_array_expansion [where pre = "''SELECT * FROM users WHERE org = :org AND id IN (''"
      and post = "'')''" and b = ?b and dialect = "''oracle''" and version = 2 and keys = None,
      OF 1 2 3 4 5]
  show ?thesis
    by simp
qed






end
